theory Spec2Isabelle
  imports Main "HOL-Library.Word" "HOL-Library.Sublist"
begin

section \<open>JavaScript strings and values\<close>

text \<open>
  A JavaScript string is a sequence of UTF-16 code units, and \<^verbatim>\<open>length\<close>,
  \<^verbatim>\<open>slice\<close> and \<^verbatim>\<open>includes\<close> count and compare code units. The
  literals of the source that are outside ASCII are written as their code units.
\<close>

type_synonym jschar = "16 word"
type_synonym jsstring = "jschar list"

definition js :: "string \<Rightarrow> jsstring" where
  "js s = map (\<lambda>c. of_nat (of_char c)) s"

text \<open>
  The values the program handles: \<^verbatim>\<open>undefined\<close> and what \<^verbatim>\<open>JSON.parse\<close> can
  return. A number is kept by what this program can observe of it: whether it is zero
  (the only falsy number a JSON text denotes) and its rendering by \<^verbatim>\<open>String\<close>.
  An object is the list of its own properties in the order of the JSON text; a later
  duplicate of a key overrides an earlier one.
\<close>

datatype jsvalue =
    JUndefined
  | JNull
  | JBool bool
  | JNumber (isZero: bool) (numText: jsstring)
  | JString jsstring
  | JArray "jsvalue list"
  | JObject "(jsstring \<times> jsvalue) list"

datatype js_error = TypeError | SyntaxError | URIError

datatype 'a promise = Resolved 'a | Rejected js_error | Pending

text \<open>\<^verbatim>\<open>ToBoolean\<close>: what an \<^verbatim>\<open>if\<close>, \<^verbatim>\<open>&&\<close>, \<^verbatim>\<open>||\<close> and \<^verbatim>\<open>!\<close> test.\<close>

fun truthy :: "jsvalue \<Rightarrow> bool" where
  "truthy JUndefined = False"
| "truthy JNull = False"
| "truthy (JBool b) = b"
| "truthy (JNumber z t) = (\<not> z)"
| "truthy (JString s) = (s \<noteq> [])"
| "truthy (JArray xs) = True"
| "truthy (JObject kvs) = True"

text \<open>
  Property read \<^verbatim>\<open>v.key\<close>. Reading from \<^verbatim>\<open>null\<close> or \<^verbatim>\<open>undefined\<close> throws a
  TypeError. The keys this program reads (type, message, content, text, ok,
  description) are not properties of strings, numbers, booleans or arrays, so there the
  read gives \<^verbatim>\<open>undefined\<close>.
\<close>

fun getProp :: "jsvalue \<Rightarrow> jsstring \<Rightarrow> js_error + jsvalue" where
  "getProp JUndefined k = Inl TypeError"
| "getProp JNull k = Inl TypeError"
| "getProp (JObject kvs) k =
     (case map_of (rev kvs) k of None \<Rightarrow> Inr JUndefined | Some v \<Rightarrow> Inr v)"
| "getProp v k = Inr JUndefined"

text \<open>
  \<^verbatim>\<open>String(v)\<close> and \<^verbatim>\<open>Array.prototype.join\<close>. An array is rendered by joining
  its elements with a comma; in a join, \<^verbatim>\<open>null\<close> and \<^verbatim>\<open>undefined\<close> elements
  give the empty string. A plain object is rendered by \<^verbatim>\<open>Object.prototype.toString\<close>;
  when it has an own property \<^verbatim>\<open>toString\<close> (never callable in a parsed value), the
  conversion falls through to \<^verbatim>\<open>valueOf\<close>, gets no primitive, and throws.
\<close>

fun ToString :: "jsvalue \<Rightarrow> js_error + jsstring"
  and joinWith :: "jsstring \<Rightarrow> jsvalue list \<Rightarrow> js_error + jsstring"
  and joinElem :: "jsvalue \<Rightarrow> js_error + jsstring" where
  "ToString JUndefined = Inr (js ''undefined'')"
| "ToString JNull = Inr (js ''null'')"
| "ToString (JBool b) = Inr (if b then js ''true'' else js ''false'')"
| "ToString (JNumber z t) = Inr t"
| "ToString (JString s) = Inr s"
| "ToString (JArray xs) = joinWith (js '','') xs"
| "ToString (JObject kvs) =
     (if map_of kvs (js ''toString'') = None then Inr (js ''[object Object]'')
      else Inl TypeError)"
| "joinWith sep [] = Inr []"
| "joinWith sep [x] = joinElem x"
| "joinWith sep (x # y # ys) =
     (case joinElem x of Inl e \<Rightarrow> Inl e
      | Inr a \<Rightarrow> (case joinWith sep (y # ys) of Inl e \<Rightarrow> Inl e
                  | Inr b \<Rightarrow> Inr (a @ sep @ b)))"
| "joinElem JUndefined = Inr []"
| "joinElem JNull = Inr []"
| "joinElem v = ToString v"

text \<open>\<^verbatim>\<open>String(v ?? '')\<close>, the guard at the head of both text functions.\<close>

definition stringOrEmpty :: "jsvalue \<Rightarrow> js_error + jsstring" where
  "stringOrEmpty v = (case v of JUndefined \<Rightarrow> Inr [] | JNull \<Rightarrow> Inr [] | _ \<Rightarrow> ToString v)"

subsection \<open>String operations\<close>

text \<open>
  \<^verbatim>\<open>toLowerCase\<close> on the letters A to Z. The case table beyond Basic Latin is not
  modelled; it cannot change which of the keywords below occur in a text: the only
  non-ASCII characters whose lower case holds an ASCII letter are U+212A (to k, a
  letter of no keyword) and U+0130 (to i followed by U+0307, and no keyword ends in i).
\<close>

definition lowerUnit :: "jschar \<Rightarrow> jschar" where
  "lowerUnit c = (if 0x41 \<le> c \<and> c \<le> 0x5A then c + 0x20 else c)"

definition toLowerCase :: "jsstring \<Rightarrow> jsstring" where
  "toLowerCase s = map lowerUnit s"

fun includesStr :: "jsstring \<Rightarrow> jsstring \<Rightarrow> bool" where
  "includesStr [] kw = (kw = [])"
| "includesStr (x # xs) kw = (prefix kw (x # xs) \<or> includesStr xs kw)"

text \<open>The class \<^verbatim>\<open>\s\<close> of a regular expression, also what \<^verbatim>\<open>trim\<close> strips.\<close>

definition isWhiteSpace :: "jschar \<Rightarrow> bool" where
  "isWhiteSpace c \<longleftrightarrow>
     c \<in> {0x09, 0x0A, 0x0B, 0x0C, 0x0D, 0x20, 0xA0, 0x1680, 0x2028, 0x2029, 0x202F,
          0x205F, 0x3000, 0xFEFF} \<or> (0x2000 \<le> c \<and> c \<le> 0x200A)"

definition isDigit :: "jschar \<Rightarrow> bool" where
  "isDigit c \<longleftrightarrow> 0x30 \<le> c \<and> c \<le> 0x39"

definition trim :: "jsstring \<Rightarrow> jsstring" where
  "trim s = rev (dropWhile isWhiteSpace (rev (dropWhile isWhiteSpace s)))"

text \<open>\<^verbatim>\<open>s.slice(start, end)\<close>, with negative positions counted from the end.\<close>

definition sliceStr :: "jsstring \<Rightarrow> int \<Rightarrow> int \<Rightarrow> jsstring" where
  "sliceStr s start fin =
     (let len = int (length s);
          from = (if start < 0 then max (len + start) 0 else min start len);
          to = (if fin < 0 then max (len + fin) 0 else min fin len)
      in take (nat (to - from)) (drop (nat from) s))"

text \<open>\<^verbatim>\<open>s.replace(/c/g, r)\<close> for a pattern of one character.\<close>

definition replaceAll :: "jschar \<Rightarrow> jsstring \<Rightarrow> jsstring \<Rightarrow> jsstring" where
  "replaceAll c r s = concat (map (\<lambda>x. if x = c then r else [x]) s)"

section \<open>telegram-notify.js\<close>

subsection \<open>inferStatusFromText\<close>

definition statusWaiting :: jsstring where
  "statusWaiting = [0x7B49, 0x5F85, 0x8F93, 0x5165]"

definition statusFailed :: jsstring where
  "statusFailed = [0x5931, 0x8D25]"

definition statusDone :: jsstring where
  "statusDone = [0x5B8C, 0x6210]"

text \<open>The test \<^verbatim>\<open>/http\s*5\d{2}/.test(text)\<close>.\<close>

definition http5xxAt :: "jsstring \<Rightarrow> bool" where
  "http5xxAt s =
     (prefix (js ''http'') s \<and>
      (case dropWhile isWhiteSpace (drop 4 s) of
         a # b # c # _ \<Rightarrow> a = 0x35 \<and> isDigit b \<and> isDigit c
       | _ \<Rightarrow> False))"

fun testHttp5xx :: "jsstring \<Rightarrow> bool" where
  "testHttp5xx [] = False"
| "testHttp5xx (x # xs) = (http5xxAt (x # xs) \<or> testHttp5xx xs)"

text \<open>The keywords of the first test of the function, in the order of the source.\<close>

definition waitingKeywords :: "jsstring list" where
  "waitingKeywords =
     [js ''permission'', [0x6743, 0x9650], js ''idle'', [0x7B49, 0x5F85],
      js ''elicitation'', [0x8BF7, 0x8F93, 0x5165]]"

definition inferStatusFromText :: "jsvalue \<Rightarrow> js_error + jsstring" where
  "inferStatusFromText v =
     (case stringOrEmpty v of
        Inl e \<Rightarrow> Inl e
      | Inr taskInfo \<Rightarrow>
          (let text = toLowerCase taskInfo in
           if includesStr text (js ''permission'') \<or> includesStr text [0x6743, 0x9650] \<or>
              includesStr text (js ''idle'') \<or> includesStr text [0x7B49, 0x5F85] \<or>
              includesStr text (js ''elicitation'') \<or> includesStr text [0x8BF7, 0x8F93, 0x5165]
           then Inr statusWaiting
           else if includesStr text (js ''error'') \<or> includesStr text [0x5931, 0x8D25] \<or>
              includesStr text (js ''exception'') \<or> includesStr text (js ''502'') \<or>
              includesStr text (js ''bad gateway'') \<or> testHttp5xx text
           then Inr statusFailed
           else Inr statusDone))"

subsection \<open>escapeHtml\<close>

definition escapeHtml :: "jsvalue \<Rightarrow> js_error + jsstring" where
  "escapeHtml v =
     (case stringOrEmpty v of
        Inl e \<Rightarrow> Inl e
      | Inr text \<Rightarrow>
          Inr (replaceAll 0x27 (js ''&#039;'')
              (replaceAll 0x22 (js ''&quot;'')
              (replaceAll 0x3E (js ''&gt;'')
              (replaceAll 0x3C (js ''&lt;'')
              (replaceAll 0x26 (js ''&amp;'') text))))))"

text \<open>Sequencing of steps that may throw: the first exception ends the evaluation.\<close>

definition bindE :: "js_error + 'a \<Rightarrow> ('a \<Rightarrow> js_error + 'b) \<Rightarrow> js_error + 'b" where
  "bindE m f = (case m of Inl e \<Rightarrow> Inl e | Inr x \<Rightarrow> f x)"

subsection \<open>The notifier and what it does to the outside\<close>

text \<open>
  A parsed URL (the fields of a \<^verbatim>\<open>URL\<close> object that the program reads), the request
  body before \<^verbatim>\<open>JSON.stringify\<close>, and the notifier object. \<^verbatim>\<open>proxyUrl\<close> is
  \<^verbatim>\<open>None\<close> when the configuration gives \<^verbatim>\<open>undefined\<close>.
\<close>

record url =
  protocol :: jsstring
  hostname :: jsstring
  port :: jsstring
  pathname :: jsstring
  username :: jsstring
  password :: jsstring

record payload =
  chat_id :: jsstring
  msg_text :: jsstring
  parse_mode :: jsstring
  disable_web_page_preview :: bool

record TelegramNotifier =
  botToken :: jsstring
  chatId :: jsstring
  proxyUrl :: "jsstring option"
  enabled :: bool
  baseUrl :: jsstring

text \<open>
  The built-in functions of the platform are parameters of the model:
  \<^verbatim>\<open>JSON.parse\<close> (\<^verbatim>\<open>None\<close> when it throws a SyntaxError), \<^verbatim>\<open>new URL\<close>
  (\<^verbatim>\<open>None\<close> when it throws) and \<^verbatim>\<open>decodeURIComponent\<close> (\<^verbatim>\<open>None\<close> when it
  throws a URIError).
\<close>

record runtime =
  JSON_parse :: "jsstring \<Rightarrow> jsvalue option"
  URL_parse :: "jsstring \<Rightarrow> url option"
  decodeURIComponent :: "jsstring \<Rightarrow> jsstring option"

text \<open>
  Every call of the program that reaches outside is recorded, in order: the lines it
  logs and the requests it opens. \<^verbatim>\<open>ProxyConnect\<close> is the CONNECT request to the
  proxy; \<^verbatim>\<open>DirectPost\<close> is the HTTPS request to the API host; \<^verbatim>\<open>TunnelTlsPost\<close>
  is the HTTPS request over the tunnel socket, whose TLS handshake names
  \<^verbatim>\<open>servername\<close>.
\<close>

datatype port_value = PortText jsstring | PortNumber nat

datatype log_line =
    LogDisabledSkip
  | LogSendOk
  | LogSendFailed jsvalue
  | LogParseFailed
  | LogResponseContent jsstring
  | LogProxyRefused nat
  | LogProxyError
  | LogRequestError
  | LogTunnelRequestError
  | LogSetupHelp
  | LogNotifySent
  | LogNotifyFailed
  | LogNotifyError
  | LogStdinParseFailed
  | LogTranscriptReadFailed

datatype effect =
    Log log_line
  | ProxyConnect (viaHttps: bool) (proxyHost: jsstring) (proxyPort: port_value)
      (connectPath: jsstring) (proxyAuthorization: "(jsstring \<times> jsstring) option")
  | DirectPost (postHost: jsstring) (postPath: jsstring) (postBody: payload)
  | TunnelTlsPost (servername: jsstring) (hostHeader: jsstring) (tunnelPath: jsstring)
      (tunnelBody: payload)

text \<open>
  What the outside answers. A response is the list of its body chunks, and whether the
  \<^verbatim>\<open>end\<close> event arrives after them. A request is answered by a response, by an
  \<^verbatim>\<open>error\<close> event, or by nothing.
\<close>

datatype response = BodyEnded "jsstring list" | BodyCutOff "jsstring list"

datatype request_event = RequestResponse response | RequestError | RequestSilent

datatype connect_event = ConnectReply nat | ConnectError | ConnectSilent

record network =
  proxyReply :: connect_event
  apiReply :: request_event

fun isNetwork :: "effect \<Rightarrow> bool" where
  "isNetwork (Log l) = False"
| "isNetwork e = True"

fun isTlsHandshake :: "effect \<Rightarrow> bool" where
  "isTlsHandshake (DirectPost h p b) = True"
| "isTlsHandshake (TunnelTlsPost s h p b) = True"
| "isTlsHandshake e = False"

subsection \<open>TelegramNotifier\<close>

definition handleResponse :: "runtime \<Rightarrow> response \<Rightarrow> effect list \<times> bool promise" where
  "handleResponse rt res =
     (case res of
        BodyCutOff chunks \<Rightarrow> ([], Pending)
      | BodyEnded chunks \<Rightarrow>
          (let responseData = concat chunks;
               caught = ([Log LogParseFailed, Log (LogResponseContent (take 200 responseData))],
                         Resolved False)
           in case JSON_parse rt responseData of
                None \<Rightarrow> caught
              | Some result \<Rightarrow>
                  (case getProp result (js ''ok'') of
                     Inl e \<Rightarrow> caught
                   | Inr ok \<Rightarrow>
                       if truthy ok then ([Log LogSendOk], Resolved True)
                       else (case getProp result (js ''description'') of
                               Inl e \<Rightarrow> caught
                             | Inr d \<Rightarrow> ([Log (LogSendFailed d)], Resolved False)))))"

definition sendDirect :: "runtime \<Rightarrow> url \<Rightarrow> payload \<Rightarrow> network \<Rightarrow> effect list \<times> bool promise" where
  "sendDirect rt apiUrl data net =
     (let opened = [DirectPost (hostname apiUrl) (pathname apiUrl) data]
      in case apiReply net of
           RequestResponse res \<Rightarrow>
             (let (es, r) = handleResponse rt res in (opened @ es, r))
         | RequestError \<Rightarrow> (opened @ [Log LogRequestError], Resolved False)
         | RequestSilent \<Rightarrow> (opened, Pending))"

definition proxyAuth :: "runtime \<Rightarrow> url \<Rightarrow> js_error + (jsstring \<times> jsstring) option" where
  "proxyAuth rt proxy =
     (if username proxy \<noteq> [] \<and> password proxy \<noteq> [] then
        (case decodeURIComponent rt (username proxy) of
           None \<Rightarrow> Inl URIError
         | Some u \<Rightarrow>
             (case decodeURIComponent rt (password proxy) of
                None \<Rightarrow> Inl URIError
              | Some p \<Rightarrow> Inr (Some (u, p))))
      else Inr None)"

definition sendViaProxy ::
  "runtime \<Rightarrow> TelegramNotifier \<Rightarrow> url \<Rightarrow> payload \<Rightarrow> network \<Rightarrow> effect list \<times> bool promise" where
  "sendViaProxy rt self apiUrl data net =
     (case URL_parse rt (case proxyUrl self of None \<Rightarrow> js ''undefined'' | Some p \<Rightarrow> p) of
        None \<Rightarrow> ([], Rejected TypeError)
      | Some proxy \<Rightarrow>
          (case proxyAuth rt proxy of
             Inl e \<Rightarrow> ([], Rejected e)
           | Inr auth \<Rightarrow>
               (let viaTls = (protocol proxy = js ''https:'');
                    connectReq = [ProxyConnect viaTls (hostname proxy)
                       (if port proxy \<noteq> [] then PortText (port proxy)
                        else PortNumber (if viaTls then 443 else 80))
                       (hostname apiUrl @ js '':443'') auth]
                in case proxyReply net of
                     ConnectReply statusCode \<Rightarrow>
                       if statusCode = 200 then
                         (let httpsReq = [TunnelTlsPost (hostname apiUrl) (hostname apiUrl)
                                (pathname apiUrl) data]
                          in case apiReply net of
                               RequestResponse res \<Rightarrow>
                                 (let (es, r) = handleResponse rt res
                                  in (connectReq @ httpsReq @ es, r))
                             | RequestError \<Rightarrow>
                                 (connectReq @ httpsReq @ [Log LogTunnelRequestError],
                                  Resolved False)
                             | RequestSilent \<Rightarrow> (connectReq @ httpsReq, Pending))
                       else (connectReq @ [Log (LogProxyRefused statusCode)], Resolved False)
                   | ConnectError \<Rightarrow> (connectReq @ [Log LogProxyError], Resolved False)
                   | ConnectSilent \<Rightarrow> (connectReq, Pending))))"

definition sendPayload ::
  "runtime \<Rightarrow> TelegramNotifier \<Rightarrow> jsstring \<Rightarrow> payload \<Rightarrow> network \<Rightarrow> effect list \<times> bool promise" where
  "sendPayload rt self endpoint data net =
     (case URL_parse rt (baseUrl self @ endpoint) of
        None \<Rightarrow> ([], Rejected TypeError)
      | Some apiUrl \<Rightarrow>
          if (case proxyUrl self of None \<Rightarrow> False | Some p \<Rightarrow> p \<noteq> [])
          then sendViaProxy rt self apiUrl data net
          else sendDirect rt apiUrl data net)"

definition sendMessage ::
  "runtime \<Rightarrow> TelegramNotifier \<Rightarrow> jsstring \<Rightarrow> jsstring \<Rightarrow> network \<Rightarrow> effect list \<times> bool promise" where
  "sendMessage rt self message parseMode net =
     (if \<not> enabled self then ([Log LogDisabledSkip], Resolved False)
      else sendPayload rt self (js ''/sendMessage'')
             \<lparr>chat_id = chatId self, msg_text = message, parse_mode = parseMode,
              disable_web_page_preview = False\<rparr> net)"

subsection \<open>notifyTaskCompletion\<close>

text \<open>
  The notifier is built by the constructor from the configuration module, and the time
  line from the clock; both are inputs here. The local constants of the function are
  definitions of their own, under the names the source gives them.
\<close>

definition title :: "jsstring \<Rightarrow> jsstring \<Rightarrow> jsstring" where
  "title status projectName =
     (if projectName \<noteq> [] then [0x3010] @ status @ [0x3011] @ projectName
      else [0x3010] @ status @ [0x3011] @ [0x4EFB, 0x52A1, 0x901A, 0x77E5])"

definition headerPrefix :: "jsstring \<Rightarrow> jsstring \<Rightarrow> jsstring \<Rightarrow> js_error + jsstring" where
  "headerPrefix status projectName formattedTime =
     bindE (escapeHtml (JString (title status projectName)))
       (\<lambda>t. Inr (js ''<b>'' @ t @ js ''</b>'' @ [0x0A] @
                 [0x25A0, 0x20, 0x65F6, 0x95F4, 0xFF1A] @ formattedTime @ [0x0A]))"

definition headerSuffix :: "jsstring \<Rightarrow> jsstring" where
  "headerSuffix status =
     (if status = statusFailed then []
      else if status = statusWaiting then
        [0x25A0, 0x20, 0x539F, 0x56E0, 0xFF1A, 0x9700, 0x8981, 0x4F60, 0x7684, 0x8F93, 0x5165, 0x0A]
      else [0x25A0, 0x20, 0x72B6, 0x6001, 0xFF1A, 0x4EFB, 0x52A1, 0x5DF2, 0x5B8C, 0x6210, 0x0A])"

definition fieldLabel :: "jsstring \<Rightarrow> jsstring" where
  "fieldLabel status =
     (if status = statusFailed then js ''<b>'' @ [0x9519, 0x8BEF] @ js ''</b>'' @ [0xFF1A]
      else [0x25A0, 0x20, 0x8BE6, 0x60C5, 0xFF1A])"

definition maxContentLength :: "int \<Rightarrow> int" where
  "maxContentLength fixedLength = 4096 - fixedLength - 10"

definition contentText :: "jsstring \<Rightarrow> int \<Rightarrow> jsstring" where
  "contentText taskInfo maxLen =
     (if int (length taskInfo) > maxLen then sliceStr taskInfo 0 maxLen @ js ''...''
      else taskInfo)"

text \<open>The message handed to \<^verbatim>\<open>sendMessage\<close>, with the fixed length it was cut for.\<close>

definition fixedLength :: "jsstring \<Rightarrow> jsstring \<Rightarrow> jsstring \<Rightarrow> js_error + int" where
  "fixedLength status projectName formattedTime =
     bindE (headerPrefix status projectName formattedTime)
       (\<lambda>hp. Inr (int (length hp) + int (length (headerSuffix status)) +
                  int (length (fieldLabel status))))"

definition message :: "jsstring \<Rightarrow> jsstring \<Rightarrow> jsstring \<Rightarrow> js_error + jsstring" where
  "message formattedTime taskInfo projectName =
     bindE (inferStatusFromText (JString taskInfo)) (\<lambda>status.
     bindE (headerPrefix status projectName formattedTime) (\<lambda>hp.
     bindE (fixedLength status projectName formattedTime) (\<lambda>fixed.
     bindE (escapeHtml (JString (contentText taskInfo (maxContentLength fixed)))) (\<lambda>escapedContent.
       Inr (hp @ headerSuffix status @ fieldLabel status @ escapedContent)))))"

definition notifyTaskCompletion ::
  "runtime \<Rightarrow> TelegramNotifier \<Rightarrow> jsstring \<Rightarrow> jsstring \<Rightarrow> jsstring \<Rightarrow> network
    \<Rightarrow> effect list \<times> bool promise" where
  "notifyTaskCompletion rt notifier formattedTime taskInfo projectName net =
     (if \<not> enabled notifier then ([Log LogSetupHelp], Resolved False)
      else case message formattedTime taskInfo projectName of
             Inl e \<Rightarrow> ([], Rejected e)
           | Inr m \<Rightarrow>
               (let (es, r) = sendMessage rt notifier m (js ''HTML'') net
                in case r of
                     Resolved success \<Rightarrow>
                       (es @ [Log (if success then LogNotifySent else LogNotifyFailed)],
                        Resolved success)
                   | Rejected e \<Rightarrow> (es @ [Log LogNotifyError], Resolved False)
                   | Pending \<Rightarrow> (es, Pending)))"

section \<open>notify.js\<close>

subsection \<open>readStdinJson\<close>

text \<open>
  Standard input as the function sees it: whether it is a terminal, the lines that the
  line reader delivers, and the event that ends the wait: the stream closes, the reader
  reports an error, or the one-second timer fires first.
\<close>

datatype stdin_end = StdinClose | StdinError | StdinTimeout

record stdin =
  isTTY :: bool
  stdinLines :: "jsstring list"
  stdinEnd :: stdin_end

text \<open>A promise keeps its first settlement; a later \<^verbatim>\<open>resolve\<close> changes nothing.\<close>

fun settle :: "'a promise \<Rightarrow> 'a promise \<Rightarrow> 'a promise" where
  "settle Pending later = later"
| "settle first later = first"

definition onClose :: "runtime \<Rightarrow> jsstring \<Rightarrow> effect list \<times> jsvalue promise" where
  "onClose rt data =
     (if trim data \<noteq> [] then
        (case JSON_parse rt data of
           Some v \<Rightarrow> ([], Resolved v)
         | None \<Rightarrow> ([Log LogStdinParseFailed], Resolved JNull))
      else ([], Resolved JNull))"

definition readStdinJson :: "runtime \<Rightarrow> stdin \<Rightarrow> effect list \<times> jsvalue promise" where
  "readStdinJson rt inp =
     (if isTTY inp then ([], Resolved JNull)
      else
        (let data = concat (stdinLines inp)
         in case stdinEnd inp of
              StdinClose \<Rightarrow> onClose rt data
            | StdinError \<Rightarrow> ([], Resolved JNull)
            | StdinTimeout \<Rightarrow>
                (let (es, r) = onClose rt data in (es, settle r (Resolved JNull)))))"

subsection \<open>extractTaskSummary\<close>

text \<open>
  The file system as the function reads it: a path has no entry, or a file with its
  text, or an entry that exists and cannot be read as a file.
\<close>

datatype fs_entry = File jsstring | Unreadable

fun splitNl :: "jsstring \<Rightarrow> jsstring list" where
  "splitNl [] = [[]]"
| "splitNl (c # cs) =
     (if c = 0x0A then [] # splitNl cs
      else (case splitNl cs of [] \<Rightarrow> [[c]] | l # ls \<Rightarrow> (c # l) # ls))"

text \<open>\<^verbatim>\<open>content.filter(c => c.type === 'text')\<close> and \<^verbatim>\<open>.map(c => c.text)\<close>.\<close>

fun filterText :: "jsvalue list \<Rightarrow> js_error + jsvalue list" where
  "filterText [] = Inr []"
| "filterText (c # cs) =
     bindE (getProp c (js ''type'')) (\<lambda>ty.
     bindE (filterText cs) (\<lambda>rest.
       Inr (if ty = JString (js ''text'') then c # rest else rest)))"

fun mapText :: "jsvalue list \<Rightarrow> js_error + jsvalue list" where
  "mapText [] = Inr []"
| "mapText (c # cs) =
     bindE (getProp c (js ''text'')) (\<lambda>t.
     bindE (mapText cs) (\<lambda>rest. Inr (t # rest)))"

definition summaryOf :: "jsstring \<Rightarrow> jsstring" where
  "summaryOf textContent =
     trim (replaceAll 0x0A (js '' '') (sliceStr textContent 0 100)) @
     (if length textContent > 100 then js ''...'' else [])"

text \<open>
  The text of a parsed record: what the source computes as \<^verbatim>\<open>textContent\<close>, with
  \<^verbatim>\<open>None\<close> when the record is not an assistant record or has no content.
\<close>

definition textContent :: "jsvalue \<Rightarrow> js_error + jsstring option" where
  "textContent entry =
     bindE (getProp entry (js ''type'')) (\<lambda>ty.
       if ty \<noteq> JString (js ''assistant'') then Inr None
       else
         bindE (getProp entry (js ''message'')) (\<lambda>m.
         bindE (if m = JNull \<or> m = JUndefined then Inr JUndefined
                else getProp m (js ''content'')) (\<lambda>content.
           if \<not> truthy content then Inr None
           else (case content of
                   JArray cs \<Rightarrow>
                     bindE (filterText cs) (\<lambda>segs.
                     bindE (mapText segs) (\<lambda>texts.
                     bindE (joinWith [0x0A] texts) (\<lambda>t. Inr (Some t))))
                 | _ \<Rightarrow> Inl TypeError))))"

text \<open>
  The body of the loop for one line, inside its \<^verbatim>\<open>try\<close>: \<^verbatim>\<open>Inr (Some s)\<close> is
  \<^verbatim>\<open>return s\<close>, \<^verbatim>\<open>Inr None\<close> falls through to the next line, \<^verbatim>\<open>Inl e\<close> is an
  exception, which the \<^verbatim>\<open>catch\<close> of the loop swallows.
\<close>

definition lineBody :: "runtime \<Rightarrow> jsstring \<Rightarrow> js_error + jsstring option" where
  "lineBody rt line =
     (case JSON_parse rt line of
        None \<Rightarrow> Inl SyntaxError
      | Some entry \<Rightarrow>
          bindE (textContent entry) (\<lambda>tc.
            case tc of
              None \<Rightarrow> Inr None
            | Some t \<Rightarrow> if t \<noteq> [] then Inr (Some (summaryOf t)) else Inr None))"

text \<open>The loop \<^verbatim>\<open>for (let i = lines.length - 1; i >= 0; i--)\<close>; \<open>n\<close> is \<open>i + 1\<close>.\<close>

fun scanBack :: "runtime \<Rightarrow> jsstring list \<Rightarrow> nat \<Rightarrow> jsstring option" where
  "scanBack rt lines 0 = None"
| "scanBack rt lines (Suc i) =
     (case lineBody rt (lines ! i) of
        Inr (Some s) \<Rightarrow> Some s
      | _ \<Rightarrow> scanBack rt lines i)"

definition extractTaskSummary ::
  "runtime \<Rightarrow> (jsstring \<Rightarrow> fs_entry option) \<Rightarrow> jsvalue \<Rightarrow> effect list \<times> jsstring option" where
  "extractTaskSummary rt fs transcriptPath =
     (if \<not> truthy transcriptPath then ([], None)
      else case transcriptPath of
             JString p \<Rightarrow>
               (case fs p of
                  None \<Rightarrow> ([], None)
                | Some Unreadable \<Rightarrow> ([Log LogTranscriptReadFailed], None)
                | Some (File content) \<Rightarrow>
                    (let lines = splitNl (trim content)
                     in ([], scanBack rt lines (length lines))))
           | _ \<Rightarrow> ([], None))"

section \<open>Notions of the specification\<close>

text \<open>
  One pass over the text that escapes each character by itself; the five passes of
  \<^verbatim>\<open>escapeHtml\<close> are shown to compute the same.
\<close>

definition escapeChar :: "jschar \<Rightarrow> jsstring" where
  "escapeChar c =
     (if c = 0x26 then js ''&amp;'' else if c = 0x3C then js ''&lt;''
      else if c = 0x3E then js ''&gt;'' else if c = 0x22 then js ''&quot;''
      else if c = 0x27 then js ''&#039;'' else [c])"

text \<open>
  The record that the summary is taken from, in the words of the specification. The
  text of a record is defined for a record of type \<^verbatim>\<open>assistant\<close> whose message
  content is a list of segments, none of them \<^verbatim>\<open>null\<close>: it is the texts of the
  segments of type \<^verbatim>\<open>text\<close>, joined by line breaks, when that is not empty. A line
  qualifies when it parses to such a record, and \<^verbatim>\<open>lastQualifying\<close> is the summary
  of the last line that qualifies.
\<close>

definition textSegments :: "jsvalue list \<Rightarrow> jsvalue list" where
  "textSegments cs =
     map (\<lambda>c. case getProp c (js ''text'') of Inr t \<Rightarrow> t | Inl e \<Rightarrow> JUndefined)
       (filter (\<lambda>c. getProp c (js ''type'') = Inr (JString (js ''text''))) cs)"

definition modelAuthoredText :: "jsvalue \<Rightarrow> jsstring option" where
  "modelAuthoredText entry =
     (if getProp entry (js ''type'') = Inr (JString (js ''assistant'')) then
        (case getProp entry (js ''message'') of
           Inr m \<Rightarrow>
             (case getProp m (js ''content'') of
                Inr (JArray cs) \<Rightarrow>
                  if list_all (\<lambda>c. c \<noteq> JNull \<and> c \<noteq> JUndefined) cs then
                    (case joinWith [0x0A] (textSegments cs) of
                       Inr t \<Rightarrow> if t \<noteq> [] then Some t else None
                     | Inl e \<Rightarrow> None)
                  else None
              | _ \<Rightarrow> None)
         | Inl e \<Rightarrow> None)
      else None)"

definition qualifies :: "runtime \<Rightarrow> jsstring \<Rightarrow> bool" where
  "qualifies rt l =
     (case JSON_parse rt l of None \<Rightarrow> False | Some entry \<Rightarrow> modelAuthoredText entry \<noteq> None)"

definition summaryOfLine :: "runtime \<Rightarrow> jsstring \<Rightarrow> jsstring option" where
  "summaryOfLine rt l =
     (case JSON_parse rt l of
        None \<Rightarrow> None
      | Some entry \<Rightarrow> map_option summaryOf (modelAuthoredText entry))"

definition lastQualifying :: "runtime \<Rightarrow> jsstring list \<Rightarrow> jsstring option" where
  "lastQualifying rt lines =
     (case find (qualifies rt) (rev lines) of None \<Rightarrow> None | Some l \<Rightarrow> summaryOfLine rt l)"

section \<open>Example inputs\<close>

text \<open>
  Concrete inputs for the closed theorems below. \<^verbatim>\<open>demoParse\<close> agrees with
  \<^verbatim>\<open>JSON.parse\<close> on the texts that the examples hand to it: the JSON texts listed
  here, and texts that are not JSON (the empty text, a cut-off record, an HTML page).
  \<^verbatim>\<open>demoUrl\<close> agrees with \<^verbatim>\<open>new URL\<close> on the two addresses of the examples,
  and the examples decode no percent sign.
\<close>

definition demoLine :: "jsstring \<Rightarrow> jsstring" where
  \<open>demoLine t =
     js ''{"type":"assistant","message":{"content":[{"type":"text","text":"'' @ t @
     js ''"}]}}''\<close>

definition demoEntry :: "jsstring \<Rightarrow> jsvalue" where
  "demoEntry t =
     JObject [(js ''type'', JString (js ''assistant'')),
       (js ''message'', JObject [(js ''content'',
          JArray [JObject [(js ''type'', JString (js ''text'')), (js ''text'', JString t)]])])]"

definition demoUserLine :: jsstring where
  \<open>demoUserLine = js ''{"type":"user","message":{"content":"thanks"}}''\<close>

definition demoCutLine :: jsstring where
  \<open>demoCutLine = js ''{"type":"assist''\<close>

definition demoParse :: "jsstring \<Rightarrow> jsvalue option" where
  \<open>demoParse s =
     (if s = js ''{"ok":true,"result":{}}'' then
        Some (JObject [(js ''ok'', JBool True), (js ''result'', JObject [])])
      else if s = js ''{"ok":false,"description":"Unauthorized"}'' then
        Some (JObject [(js ''ok'', JBool False),
                       (js ''description'', JString (js ''Unauthorized''))])
      else if s = js ''null'' then Some JNull
      else if s = demoLine (js ''first answer'') then Some (demoEntry (js ''first answer''))
      else if s = demoLine (js ''second answer'') then Some (demoEntry (js ''second answer''))
      else if s = demoLine (js '' ok'') then Some (demoEntry (js '' ok''))
      else if s = demoUserLine then
        Some (JObject [(js ''type'', JString (js ''user'')),
               (js ''message'', JObject [(js ''content'', JString (js ''thanks''))])])
      else None)\<close>

definition demoTranscript :: jsstring where
  "demoTranscript =
     demoLine (js ''first answer'') @ [0x0A] @ demoLine (js ''second answer'') @ [0x0A] @
     demoUserLine @ [0x0A] @ demoCutLine @ [0x0A]"

definition demoShortTranscript :: jsstring where
  "demoShortTranscript = demoLine (js ''first answer'') @ [0x0A] @ demoLine (js '' ok'') @ [0x0A]"

definition demoFs :: "jsstring \<Rightarrow> fs_entry option" where
  "demoFs p =
     (if p = js ''/tmp/transcript.jsonl'' then Some (File demoTranscript)
      else if p = js ''/tmp/short.jsonl'' then Some (File demoShortTranscript)
      else if p = js ''/tmp/empty.jsonl'' then Some (File [])
      else None)"

definition demoApiUrl :: url where
  "demoApiUrl = \<lparr>protocol = js ''https:'', hostname = js ''api.telegram.org'', port = [],
       pathname = js ''/bot123:ABC/sendMessage'', username = [], password = []\<rparr>"

definition demoProxy :: url where
  "demoProxy = \<lparr>protocol = js ''http:'', hostname = js ''proxy.local'', port = js ''8080'',
       pathname = js ''/'', username = [], password = []\<rparr>"

definition demoUrl :: "jsstring \<Rightarrow> url option" where
  "demoUrl s =
     (if s = js ''https://api.telegram.org/bot123:ABC/sendMessage'' then Some demoApiUrl
      else if s = js ''http://proxy.local:8080'' then Some demoProxy
      else None)"

definition demoRuntime :: runtime where
  "demoRuntime = \<lparr>JSON_parse = demoParse, URL_parse = demoUrl, decodeURIComponent = Some\<rparr>"

definition demoNotifier :: TelegramNotifier where
  "demoNotifier =
     \<lparr>botToken = js ''123:ABC'', chatId = js ''42'',
      proxyUrl = Some (js ''http://proxy.local:8080''), enabled = True,
      baseUrl = js ''https://api.telegram.org/bot123:ABC''\<rparr>"

definition demoPayload :: payload where
  "demoPayload = \<lparr>chat_id = js ''42'', msg_text = js ''hi'', parse_mode = js ''HTML'',
       disable_web_page_preview = False\<rparr>"

definition demoNet :: "nat \<Rightarrow> jsstring list \<Rightarrow> network" where
  "demoNet status chunks =
     \<lparr>proxyReply = ConnectReply status, apiReply = RequestResponse (BodyEnded chunks)\<rparr>"

definition demoStdin :: "jsstring list \<Rightarrow> stdin" where
  "demoStdin ls = \<lparr>isTTY = False, stdinLines = ls, stdinEnd = StdinClose\<rparr>"

definition demoTime :: jsstring where
  "demoTime = js ''01-01 00:00''"

section \<open>Properties\<close>

subsection \<open>Strings\<close>

lemma includesStr_sublist: "includesStr s kw \<longleftrightarrow> sublist kw s"
  by (induction s) (auto simp: sublist_Cons_right)

lemma includesStr_map: "includesStr s kw \<Longrightarrow> includesStr (map f s) (map f kw)"
  unfolding includesStr_sublist by (rule map_mono_sublist)

lemma includesStr_set: "includesStr s kw \<Longrightarrow> set kw \<subseteq> set s"
  unfolding includesStr_sublist by (rule set_mono_sublist)

lemma toLowerCase_waiting: "kw \<in> set waitingKeywords \<Longrightarrow> toLowerCase kw = kw"
  by (auto simp: waitingKeywords_def toLowerCase_def lowerUnit_def js_def)

lemma waiting_cases:
  "kw \<in> set waitingKeywords \<Longrightarrow> includesStr (toLowerCase s) kw \<Longrightarrow>
   inferStatusFromText (JString s) = Inr statusWaiting"
  by (auto simp: waitingKeywords_def inferStatusFromText_def stringOrEmpty_def)

lemma sliceStr_0: "0 \<le> n \<Longrightarrow> sliceStr s 0 n = take (nat n) s"
  by (auto simp: sliceStr_def Let_def min_def)

lemma replaceAll_append: "replaceAll c r (a @ b) = replaceAll c r a @ replaceAll c r b"
  by (simp add: replaceAll_def)

lemma replaceAll_Cons: "replaceAll c r (x # xs) = (if x = c then r else [x]) @ replaceAll c r xs"
  by (simp add: replaceAll_def)

lemma replaceAll_Nil: "replaceAll c r [] = []"
  by (simp add: replaceAll_def)

lemma escapeHtml_single_pass: "escapeHtml (JString s) = Inr (concat (map escapeChar s))"
proof -
  have "replaceAll 0x27 (js ''&#039;'') (replaceAll 0x22 (js ''&quot;'')
          (replaceAll 0x3E (js ''&gt;'') (replaceAll 0x3C (js ''&lt;'')
          (replaceAll 0x26 (js ''&amp;'') s)))) = concat (map escapeChar s)"
    by (induction s)
       (simp_all add: replaceAll_Nil replaceAll_Cons replaceAll_append escapeChar_def js_def)
  then show ?thesis
    by (simp add: escapeHtml_def stringOrEmpty_def)
qed

subsection \<open>Status inference\<close>

lemma includesStr_lower_keyword:
  assumes "kw \<in> set waitingKeywords" and "includesStr s kw"
  shows "includesStr (toLowerCase s) kw"
proof -
  have "includesStr (map lowerUnit s) (map lowerUnit kw)"
    using assms(2) by (rule includesStr_map)
  then show ?thesis
    using toLowerCase_waiting [OF assms(1)] by (simp add: toLowerCase_def)
qed

text \<open>
  Claim C4. The waiting-for-input keywords are tested before the failure keywords: a
  text that contains a waiting keyword, as written or in another letter case,
  classifies as waiting-for-input whatever else it contains. The three examples of the
  specification classify as waiting-for-input, failed and completed.
\<close>

theorem inferStatus_waiting_first:
  "(kw \<in> set waitingKeywords \<longrightarrow> includesStr s kw \<or> includesStr (toLowerCase s) kw \<longrightarrow>
      inferStatusFromText (JString s) = Inr statusWaiting)
   \<and> inferStatusFromText (JString (js ''permission denied, please confirm'')) = Inr statusWaiting
   \<and> inferStatusFromText (JString (js ''Error: HTTP 502 Bad Gateway'')) = Inr statusFailed
   \<and> inferStatusFromText (JString (js ''build succeeded'')) = Inr statusDone"
proof (intro conjI impI)
  assume kw: "kw \<in> set waitingKeywords"
    and inc: "includesStr s kw \<or> includesStr (toLowerCase s) kw"
  from inc kw have "includesStr (toLowerCase s) kw"
    by (auto intro: includesStr_lower_keyword)
  with kw show "inferStatusFromText (JString s) = Inr statusWaiting"
    by (rule waiting_cases)
next
  show "inferStatusFromText (JString (js ''permission denied, please confirm'')) = Inr statusWaiting"
    by code_simp
next
  show "inferStatusFromText (JString (js ''Error: HTTP 502 Bad Gateway'')) = Inr statusFailed"
    by code_simp
next
  show "inferStatusFromText (JString (js ''build succeeded'')) = Inr statusDone"
    by code_simp
qed

text \<open>
  An instance: the text holds the failure keywords \<^verbatim>\<open>error\<close> and \<^verbatim>\<open>502\<close>
  besides the waiting keyword \<^verbatim>\<open>idle\<close>, in capitals.
\<close>

theorem inferStatus_waiting_first_witness:
  "js ''idle'' \<in> set waitingKeywords
   \<and> includesStr (toLowerCase (js ''Idle after ERROR 502'')) (js ''idle'')
   \<and> includesStr (toLowerCase (js ''Idle after ERROR 502'')) (js ''error'')
   \<and> inferStatusFromText (JString (js ''Idle after ERROR 502'')) = Inr statusWaiting"
proof -
  have k: "js ''idle'' \<in> set waitingKeywords"
    by (simp add: waitingKeywords_def)
  have i: "includesStr (toLowerCase (js ''Idle after ERROR 502'')) (js ''idle'')"
    by code_simp
  have e: "includesStr (toLowerCase (js ''Idle after ERROR 502'')) (js ''error'')"
    by code_simp
  have "inferStatusFromText (JString (js ''Idle after ERROR 502'')) = Inr statusWaiting"
    using inferStatus_waiting_first [of "js ''idle''" "js ''Idle after ERROR 502''"] k i
    by blast
  with k i e show ?thesis by blast
qed

lemma inferStatus_range:
  "stringOrEmpty v = Inr s \<Longrightarrow>
   inferStatusFromText v \<in> {Inr statusWaiting, Inr statusFailed, Inr statusDone}"
  by (simp add: inferStatusFromText_def Let_def)

text \<open>
  Claim C10, as amended. For every input whose conversion by \<^verbatim>\<open>String\<close> succeeds, in
  particular for every string, the function returns one of three distinct status
  values; \<^verbatim>\<open>null\<close> and \<^verbatim>\<open>undefined\<close> are taken as the empty string and classify as
  completed. When the conversion throws, the function throws the same exception.
\<close>

theorem inferStatus_total_on_convertible:
  "(stringOrEmpty v = Inr s \<longrightarrow>
      inferStatusFromText v \<in> {Inr statusWaiting, Inr statusFailed, Inr statusDone})
   \<and> (stringOrEmpty v = Inl e \<longrightarrow> inferStatusFromText v = Inl e)
   \<and> inferStatusFromText (JString t) \<in> {Inr statusWaiting, Inr statusFailed, Inr statusDone}
   \<and> stringOrEmpty JNull = Inr [] \<and> stringOrEmpty JUndefined = Inr []
   \<and> inferStatusFromText JNull = Inr statusDone
   \<and> inferStatusFromText JUndefined = Inr statusDone
   \<and> distinct [statusWaiting, statusFailed, statusDone]"
proof (intro conjI impI)
  assume "stringOrEmpty v = Inr s"
  then show "inferStatusFromText v \<in> {Inr statusWaiting, Inr statusFailed, Inr statusDone}"
    by (rule inferStatus_range)
next
  assume "stringOrEmpty v = Inl e"
  then show "inferStatusFromText v = Inl e"
    by (simp add: inferStatusFromText_def)
next
  show "inferStatusFromText (JString t) \<in> {Inr statusWaiting, Inr statusFailed, Inr statusDone}"
    by (rule inferStatus_range [of _ t]) (simp add: stringOrEmpty_def)
next
  show "inferStatusFromText JNull = Inr statusDone" by code_simp
next
  show "inferStatusFromText JUndefined = Inr statusDone" by code_simp
next
  show "distinct [statusWaiting, statusFailed, statusDone]"
    by (simp add: statusWaiting_def statusFailed_def statusDone_def)
qed (simp_all add: stringOrEmpty_def)

theorem inferStatus_total_on_convertible_witness:
  "stringOrEmpty (JBool True) = Inr (js ''true'')
   \<and> inferStatusFromText (JBool True) \<in> {Inr statusWaiting, Inr statusFailed, Inr statusDone}
   \<and> stringOrEmpty (JArray [JObject [(js ''toString'', JNull)]]) = Inl TypeError
   \<and> inferStatusFromText (JArray [JObject [(js ''toString'', JNull)]]) = Inl TypeError"
proof -
  have a: "stringOrEmpty (JBool True) = Inr (js ''true'')"
    by (simp add: stringOrEmpty_def)
  have b: "stringOrEmpty (JArray [JObject [(js ''toString'', JNull)]]) = Inl TypeError"
    by (simp add: stringOrEmpty_def)
  from a b
    inferStatus_total_on_convertible [of "JBool True" "js ''true''"]
    inferStatus_total_on_convertible [of "JArray [JObject [(js ''toString'', JNull)]]" _ TypeError]
  show ?thesis by blast
qed

text \<open>
  The claim as stated covers every input value. An object with an own property
  \<^verbatim>\<open>toString\<close> that is not a function has no string conversion, and the function
  throws on it.
\<close>

theorem inferStatus_throws_counterexample:
  "inferStatusFromText (JObject [(js ''toString'', JNull)]) = Inl TypeError"
  by (simp add: inferStatusFromText_def stringOrEmpty_def)

subsection \<open>HTML escaping\<close>

text \<open>
  Each special character is replaced by an entity of at least four characters that
  begins with an ampersand, so escaped text is longer than the text it came from and
  holds a special character again.
\<close>

lemma escapeChar_safe: "c \<notin> {0x26, 0x3C, 0x3E, 0x22, 0x27} \<Longrightarrow> escapeChar c = [c]"
  by (simp add: escapeChar_def)

lemma escape_plain_id:
  "set t \<inter> {0x26, 0x3C, 0x3E, 0x22, 0x27} = {} \<Longrightarrow> concat (map escapeChar t) = t"
proof (induction t)
  case Nil
  show ?case by simp
next
  case (Cons c t)
  then have "c \<notin> {0x26, 0x3C, 0x3E, 0x22, 0x27}"
    and "set t \<inter> {0x26, 0x3C, 0x3E, 0x22, 0x27} = {}"
    by auto
  with Cons.IH show ?case by (simp add: escapeChar_safe del: insert_iff)
qed

lemma length_escapeChar: "length (escapeChar c) \<ge> 1"
  by (simp add: escapeChar_def js_def)

lemma length_escapeChar_special:
  "c \<in> {0x26, 0x3C, 0x3E, 0x22, 0x27} \<Longrightarrow> length (escapeChar c) \<ge> 4"
  by (auto simp: escapeChar_def js_def)

lemma length_escape_ge: "length (concat (map escapeChar t)) \<ge> length t"
proof (induction t)
  case (Cons c t)
  then show ?case using length_escapeChar [of c] by simp
qed simp

lemma length_escape_gt:
  "set t \<inter> {0x26, 0x3C, 0x3E, 0x22, 0x27} \<noteq> {} \<Longrightarrow>
   length (concat (map escapeChar t)) > length t"
proof (induction t)
  case Nil
  then show ?case by simp
next
  case (Cons c t)
  show ?case
  proof (cases "c \<in> {0x26, 0x3C, 0x3E, 0x22, 0x27}")
    case True
    then have "length (escapeChar c) \<ge> 4" by (rule length_escapeChar_special)
    with length_escape_ge [of t] show ?thesis by simp
  next
    case False
    with Cons.prems have "set t \<inter> {0x26, 0x3C, 0x3E, 0x22, 0x27} \<noteq> {}" by auto
    then have "length (concat (map escapeChar t)) > length t" by (rule Cons.IH)
    with length_escapeChar [of c] show ?thesis by simp
  qed
qed

lemma escape_special_has_amp:
  "set t \<inter> {0x26, 0x3C, 0x3E, 0x22, 0x27} \<noteq> {} \<Longrightarrow>
   0x26 \<in> set (concat (map escapeChar t))"
proof -
  assume "set t \<inter> {0x26, 0x3C, 0x3E, 0x22, 0x27} \<noteq> {}"
  then obtain c where c: "c \<in> set t" "c \<in> {0x26, 0x3C, 0x3E, 0x22, 0x27}" by blast
  from c(2) have "0x26 \<in> set (escapeChar c)" by (auto simp: escapeChar_def js_def)
  with c(1) show ?thesis by auto
qed

lemma escapeHtml_twice_changes_unsafe:
  assumes "set t \<inter> {0x26, 0x3C, 0x3E, 0x22, 0x27} \<noteq> {}"
    and "escapeHtml (JString t) = Inr u"
  shows "escapeHtml (JString u) \<noteq> Inr u"
proof -
  from assms(2) have u: "u = concat (map escapeChar t)"
    by (simp add: escapeHtml_single_pass)
  from assms(1) have "0x26 \<in> set (concat (map escapeChar t))"
    by (rule escape_special_has_amp)
  with u have "set u \<inter> {0x26, 0x3C, 0x3E, 0x22, 0x27} \<noteq> {}" by auto
  then have "length (concat (map escapeChar u)) > length u" by (rule length_escape_gt)
  then show ?thesis by (auto simp: escapeHtml_single_pass)
qed

text \<open>
  Claim C6, as amended. \<^verbatim>\<open>escapeHtml\<close> returns a text unchanged exactly when none of
  the characters \<^verbatim>\<open>& < > " '\<close> occurs in it, and applying it a second time leaves
  its result unchanged exactly for such text: text that has been escaped is escaped
  again, the ampersand of every entity becoming \<^verbatim>\<open>&amp;\<close>. It maps
  \<^verbatim>\<open><script>\<close> to \<^verbatim>\<open>&lt;script&gt;\<close> and a single quote to \<^verbatim>\<open>&#039;\<close>.
\<close>

theorem escapeHtml_unchanged_iff_plain:
  "(escapeHtml (JString t) = Inr t \<longleftrightarrow> set t \<inter> {0x26, 0x3C, 0x3E, 0x22, 0x27} = {})
   \<and> (escapeHtml (JString t) = Inr u \<longrightarrow>
        (escapeHtml (JString u) = Inr u \<longleftrightarrow> set t \<inter> {0x26, 0x3C, 0x3E, 0x22, 0x27} = {}))
   \<and> escapeHtml (JString (js ''<script>'')) = Inr (js ''&lt;script&gt;'')
   \<and> escapeHtml (JString [0x27]) = Inr (js ''&#039;'')"
proof (intro conjI impI)
  show fx: "escapeHtml (JString t) = Inr t \<longleftrightarrow> set t \<inter> {0x26, 0x3C, 0x3E, 0x22, 0x27} = {}"
  proof
    assume e: "escapeHtml (JString t) = Inr t"
    show "set t \<inter> {0x26, 0x3C, 0x3E, 0x22, 0x27} = {}"
    proof (rule ccontr)
      assume "set t \<inter> {0x26, 0x3C, 0x3E, 0x22, 0x27} \<noteq> {}"
      then have "length (concat (map escapeChar t)) > length t" by (rule length_escape_gt)
      with e show False by (simp add: escapeHtml_single_pass)
    qed
  next
    assume "set t \<inter> {0x26, 0x3C, 0x3E, 0x22, 0x27} = {}"
    then show "escapeHtml (JString t) = Inr t"
      by (simp add: escapeHtml_single_pass escape_plain_id del: insert_iff)
  qed
  assume u: "escapeHtml (JString t) = Inr u"
  show "escapeHtml (JString u) = Inr u \<longleftrightarrow> set t \<inter> {0x26, 0x3C, 0x3E, 0x22, 0x27} = {}"
  proof
    assume "escapeHtml (JString u) = Inr u"
    with u escapeHtml_twice_changes_unsafe [of t u]
    show "set t \<inter> {0x26, 0x3C, 0x3E, 0x22, 0x27} = {}" by blast
  next
    assume p: "set t \<inter> {0x26, 0x3C, 0x3E, 0x22, 0x27} = {}"
    with fx have "escapeHtml (JString t) = Inr t" by blast
    with u have "u = t" by simp
    with p fx show "escapeHtml (JString u) = Inr u" by blast
  qed
next
  show "escapeHtml (JString (js ''<script>'')) = Inr (js ''&lt;script&gt;'')"
    by code_simp
next
  show "escapeHtml (JString [0x27]) = Inr (js ''&#039;'')"
    by code_simp
qed

theorem escapeHtml_unchanged_iff_plain_witness:
  "set (js ''build succeeded'') \<inter> {0x26, 0x3C, 0x3E, 0x22, 0x27} = {}
   \<and> escapeHtml (JString (js ''build succeeded'')) = Inr (js ''build succeeded'')
   \<and> set (js ''<script>'') \<inter> {0x26, 0x3C, 0x3E, 0x22, 0x27} \<noteq> {}
   \<and> escapeHtml (JString (js ''<script>'')) = Inr (js ''&lt;script&gt;'')
   \<and> escapeHtml (JString (js ''<script>'')) \<noteq> Inr (js ''<script>'')
   \<and> escapeHtml (JString (js ''&lt;script&gt;'')) \<noteq> Inr (js ''&lt;script&gt;'')"
proof -
  have p: "set (js ''build succeeded'') \<inter> {0x26, 0x3C, 0x3E, 0x22, 0x27} = {}"
    by (simp add: js_def)
  have q: "set (js ''<script>'') \<inter> {0x26, 0x3C, 0x3E, 0x22, 0x27} \<noteq> {}"
    by (simp add: js_def)
  note a = escapeHtml_unchanged_iff_plain [of "js ''build succeeded''"]
  note b = escapeHtml_unchanged_iff_plain [of "js ''<script>''" "js ''&lt;script&gt;''"]
  from a p have a': "escapeHtml (JString (js ''build succeeded'')) = Inr (js ''build succeeded'')"
    by blast
  from b have e: "escapeHtml (JString (js ''<script>'')) = Inr (js ''&lt;script&gt;'')"
    by blast
  from b q have b1: "escapeHtml (JString (js ''<script>'')) \<noteq> Inr (js ''<script>'')"
    by blast
  from b e q have b2: "escapeHtml (JString (js ''&lt;script&gt;'')) \<noteq> Inr (js ''&lt;script&gt;'')"
    by blast
  from p q a' e b1 b2 show ?thesis by blast
qed

text \<open>
  The claim as stated has a second application leave already escaped text unchanged.
  The escaped form of \<^verbatim>\<open><script>\<close> is changed by the second application.
\<close>

theorem escapeHtml_double_escape_counterexample:
  "escapeHtml (JString (js ''<script>'')) = Inr (js ''&lt;script&gt;'')
   \<and> escapeHtml (JString (js ''&lt;script&gt;'')) = Inr (js ''&amp;lt;script&amp;gt;'')
   \<and> escapeHtml (JString (js ''&lt;script&gt;'')) \<noteq> Inr (js ''&lt;script&gt;'')"
  by code_simp

subsection \<open>Delivery to the messaging API\<close>

text \<open>
  Claim C1, as amended. When the notifier is disabled, \<^verbatim>\<open>sendMessage\<close> logs that
  the channel is skipped, opens no connection, and resolves \<^verbatim>\<open>false\<close>.
\<close>

theorem sendMessage_disabled:
  "\<not> enabled self \<Longrightarrow>
   sendMessage rt self m pm net = ([Log LogDisabledSkip], Resolved False)
   \<and> \<not> list_ex isNetwork (fst (sendMessage rt self m pm net))"
  by (simp add: sendMessage_def)

theorem sendMessage_disabled_witness:
  "\<not> enabled (demoNotifier\<lparr>enabled := False\<rparr>)
   \<and> sendMessage demoRuntime (demoNotifier\<lparr>enabled := False\<rparr>) (js ''hi'') (js ''HTML'')
        (demoNet 200 [])
      = ([Log LogDisabledSkip], Resolved False)
   \<and> \<not> list_ex isNetwork (fst (sendMessage demoRuntime (demoNotifier\<lparr>enabled := False\<rparr>)
        (js ''hi'') (js ''HTML'') (demoNet 200 [])))"
proof -
  have d: "\<not> enabled (demoNotifier\<lparr>enabled := False\<rparr>)" by simp
  from d sendMessage_disabled [OF d, of demoRuntime "js ''hi''" "js ''HTML''" "demoNet 200 []"]
  show ?thesis by blast
qed

text \<open>The claim as stated has the disabled notifier resolve \<^verbatim>\<open>true\<close>.\<close>

theorem sendMessage_disabled_counterexample:
  "snd (sendMessage demoRuntime (demoNotifier\<lparr>enabled := False\<rparr>) (js ''hi'') (js ''HTML'')
        (demoNet 200 [])) \<noteq> Resolved True"
  by (simp add: sendMessage_def)

lemma handleResponse_no_tls: "filter isTlsHandshake (fst (handleResponse rt res)) = []"
  by (auto simp: handleResponse_def Let_def split: response.splits option.splits sum.splits)

lemma handleResponse_no_tls': "handleResponse rt res = (es, r) \<Longrightarrow> filter isTlsHandshake es = []"
  using handleResponse_no_tls [of rt res] by simp

lemma demo_url_proxy: "URL_parse demoRuntime (js ''http://proxy.local:8080'') = Some demoProxy"
  by (simp add: demoRuntime_def demoUrl_def js_def)

lemma demo_auth: "proxyAuth demoRuntime demoProxy = Inr None"
  by (simp add: proxyAuth_def demoProxy_def)

text \<open>
  Claim C7. In the tunnelled branch, once the CONNECT request has been sent: a reply
  with status 200 is followed by exactly one TLS request, over the tunnel, whose server
  name is the host name of the API address; on any other status the attempt resolves
  \<^verbatim>\<open>false\<close>, no TLS request is opened, and the CONNECT request stays the only
  network activity.
\<close>

theorem sendViaProxy_tunnel:
  assumes "proxyUrl self = Some p" and "URL_parse rt p = Some proxy"
    and "proxyAuth rt proxy = Inr auth" and "proxyReply net = ConnectReply status"
  shows "(status = 200 \<longrightarrow>
            filter isTlsHandshake (fst (sendViaProxy rt self apiUrl data net))
              = [TunnelTlsPost (hostname apiUrl) (hostname apiUrl) (pathname apiUrl) data])
         \<and> (status \<noteq> 200 \<longrightarrow>
            snd (sendViaProxy rt self apiUrl data net) = Resolved False
            \<and> filter isTlsHandshake (fst (sendViaProxy rt self apiUrl data net)) = []
            \<and> filter isNetwork (fst (sendViaProxy rt self apiUrl data net))
                = [ProxyConnect (protocol proxy = js ''https:'') (hostname proxy)
                     (if port proxy \<noteq> [] then PortText (port proxy)
                      else PortNumber (if protocol proxy = js ''https:'' then 443 else 80))
                     (hostname apiUrl @ js '':443'') auth])"
  using assms
  by (auto simp: sendViaProxy_def Let_def handleResponse_no_tls' split: request_event.splits prod.splits)

theorem sendViaProxy_tunnel_witness:
  "proxyUrl demoNotifier = Some (js ''http://proxy.local:8080'')
   \<and> URL_parse demoRuntime (js ''http://proxy.local:8080'') = Some demoProxy
   \<and> proxyAuth demoRuntime demoProxy = Inr None
   \<and> proxyReply (demoNet 200 []) = ConnectReply 200
   \<and> proxyReply (demoNet 407 []) = ConnectReply 407
   \<and> filter isTlsHandshake
        (fst (sendViaProxy demoRuntime demoNotifier demoApiUrl demoPayload (demoNet 200 [])))
      = [TunnelTlsPost (js ''api.telegram.org'') (js ''api.telegram.org'')
           (js ''/bot123:ABC/sendMessage'') demoPayload]
   \<and> snd (sendViaProxy demoRuntime demoNotifier demoApiUrl demoPayload (demoNet 407 []))
      = Resolved False
   \<and> filter isTlsHandshake
        (fst (sendViaProxy demoRuntime demoNotifier demoApiUrl demoPayload (demoNet 407 [])))
      = []"
proof -
  have p: "proxyUrl demoNotifier = Some (js ''http://proxy.local:8080'')"
    by (simp add: demoNotifier_def)
  have r2: "proxyReply (demoNet 200 []) = ConnectReply 200"
    and r4: "proxyReply (demoNet 407 []) = ConnectReply 407"
    by (simp_all add: demoNet_def)
  have h: "hostname demoApiUrl = js ''api.telegram.org''"
    "pathname demoApiUrl = js ''/bot123:ABC/sendMessage''"
    by (simp_all add: demoApiUrl_def)
  note a = sendViaProxy_tunnel [OF p demo_url_proxy demo_auth r2, of demoApiUrl demoPayload]
  note b = sendViaProxy_tunnel [OF p demo_url_proxy demo_auth r4, of demoApiUrl demoPayload]
  from a have a': "filter isTlsHandshake
        (fst (sendViaProxy demoRuntime demoNotifier demoApiUrl demoPayload (demoNet 200 [])))
      = [TunnelTlsPost (js ''api.telegram.org'') (js ''api.telegram.org'')
           (js ''/bot123:ABC/sendMessage'') demoPayload]"
    by (simp add: h)
  from b have b': "snd (sendViaProxy demoRuntime demoNotifier demoApiUrl demoPayload (demoNet 407 []))
      = Resolved False
   \<and> filter isTlsHandshake
        (fst (sendViaProxy demoRuntime demoNotifier demoApiUrl demoPayload (demoNet 407 [])))
      = []"
    by simp
  from p demo_url_proxy demo_auth r2 r4 a' b' show ?thesis by blast
qed

text \<open>
  Claim C8. \<^verbatim>\<open>_handleResponse\<close> joins all the chunks of the body before it parses.
  A body that is not JSON resolves \<^verbatim>\<open>false\<close> and logs the first 200 characters
  of the raw body. A parsed body resolves \<^verbatim>\<open>false\<close> when its \<^verbatim>\<open>ok\<close> is
  missing or falsy, and when reading \<^verbatim>\<open>ok\<close> throws (the body \<^verbatim>\<open>null\<close>); it
  resolves \<^verbatim>\<open>true\<close> when \<^verbatim>\<open>ok\<close> is truthy. The direct delivery resolves as
  \<^verbatim>\<open>_handleResponse\<close> does.
\<close>

theorem handleResponse_protocol:
  "(JSON_parse rt (concat chunks) = None \<longrightarrow>
      handleResponse rt (BodyEnded chunks)
        = ([Log LogParseFailed, Log (LogResponseContent (take 200 (concat chunks)))],
           Resolved False))
   \<and> (JSON_parse rt (concat chunks) = Some result \<longrightarrow>
        (getProp result (js ''ok'') = Inr ok \<longrightarrow> \<not> truthy ok \<longrightarrow>
           snd (handleResponse rt (BodyEnded chunks)) = Resolved False)
        \<and> (getProp result (js ''ok'') = Inl e \<longrightarrow>
           snd (handleResponse rt (BodyEnded chunks)) = Resolved False)
        \<and> (getProp result (js ''ok'') = Inr ok \<longrightarrow> truthy ok \<longrightarrow>
           handleResponse rt (BodyEnded chunks) = ([Log LogSendOk], Resolved True)))
   \<and> (apiReply net = RequestResponse res \<longrightarrow>
        snd (sendDirect rt apiUrl data net) = snd (handleResponse rt res))"
  by (auto simp: handleResponse_def sendDirect_def Let_def split: sum.splits prod.splits)

lemma demo_parse_html: "JSON_parse demoRuntime (concat [js ''<html>'', js ''502</html>'']) = None"
  by code_simp

lemma demo_parse_refused:
  \<open>JSON_parse demoRuntime (concat [js ''{"ok":false,'', js ''"description":"Unauthorized"}''])
     = Some (JObject [(js ''ok'', JBool False),
                      (js ''description'', JString (js ''Unauthorized''))])\<close>
  by code_simp

lemma demo_parse_null: "JSON_parse demoRuntime (concat [js ''null'']) = Some JNull"
  by code_simp

theorem handleResponse_protocol_witness:
  \<open>JSON_parse demoRuntime (concat [js ''<html>'', js ''502</html>'']) = None
   \<and> handleResponse demoRuntime (BodyEnded [js ''<html>'', js ''502</html>''])
       = ([Log LogParseFailed,
           Log (LogResponseContent (take 200 (concat [js ''<html>'', js ''502</html>''])))],
          Resolved False)
   \<and> JSON_parse demoRuntime (concat [js ''{"ok":false,'', js ''"description":"Unauthorized"}''])
       = Some (JObject [(js ''ok'', JBool False),
                        (js ''description'', JString (js ''Unauthorized''))])
   \<and> getProp (JObject [(js ''ok'', JBool False),
                        (js ''description'', JString (js ''Unauthorized''))]) (js ''ok'')
       = Inr (JBool False)
   \<and> \<not> truthy (JBool False)
   \<and> snd (handleResponse demoRuntime
             (BodyEnded [js ''{"ok":false,'', js ''"description":"Unauthorized"}'']))
       = Resolved False
   \<and> JSON_parse demoRuntime (concat [js ''null'']) = Some JNull
   \<and> getProp JNull (js ''ok'') = Inl TypeError
   \<and> snd (handleResponse demoRuntime (BodyEnded [js ''null''])) = Resolved False
   \<and> apiReply (demoNet 200 [js ''null'']) = RequestResponse (BodyEnded [js ''null''])
   \<and> snd (sendDirect demoRuntime demoApiUrl demoPayload (demoNet 200 [js ''null'']))
       = snd (handleResponse demoRuntime (BodyEnded [js ''null'']))\<close>
proof -
  have g: \<open>getProp (JObject [(js ''ok'', JBool False),
                        (js ''description'', JString (js ''Unauthorized''))]) (js ''ok'')
       = Inr (JBool False)\<close>
    by (simp add: js_def)
  have f: "\<not> truthy (JBool False)" by simp
  have n: "getProp JNull (js ''ok'') = Inl TypeError" by simp
  have r: "apiReply (demoNet 200 [js ''null'']) = RequestResponse (BodyEnded [js ''null''])"
    by (simp add: demoNet_def)
  note a = handleResponse_protocol [of demoRuntime "[js ''<html>'', js ''502</html>'']"]
  note b = handleResponse_protocol [of demoRuntime
      \<open>[js ''{"ok":false,'', js ''"description":"Unauthorized"}'']\<close>
      \<open>JObject [(js ''ok'', JBool False), (js ''description'', JString (js ''Unauthorized''))]\<close>
      "JBool False"]
  note c = handleResponse_protocol [of demoRuntime "[js ''null'']" JNull _ TypeError
      "demoNet 200 [js ''null'']" "BodyEnded [js ''null'']" demoApiUrl demoPayload]
  from a demo_parse_html have a': "handleResponse demoRuntime (BodyEnded [js ''<html>'', js ''502</html>''])
       = ([Log LogParseFailed,
           Log (LogResponseContent (take 200 (concat [js ''<html>'', js ''502</html>''])))],
          Resolved False)"
    by blast
  from b demo_parse_refused g f have b': \<open>snd (handleResponse demoRuntime
             (BodyEnded [js ''{"ok":false,'', js ''"description":"Unauthorized"}'']))
       = Resolved False\<close>
    by blast
  from c demo_parse_null n r have c': "snd (handleResponse demoRuntime (BodyEnded [js ''null''])) = Resolved False
     \<and> snd (sendDirect demoRuntime demoApiUrl demoPayload (demoNet 200 [js ''null'']))
       = snd (handleResponse demoRuntime (BodyEnded [js ''null'']))"
    by blast
  from demo_parse_html demo_parse_refused demo_parse_null g f n r a' b' c'
  show ?thesis by blast
qed

subsection \<open>Assembling the message\<close>

lemma headerPrefix_Inr:
  "\<exists>hp. headerPrefix status projectName formattedTime = Inr hp"
  by (simp add: headerPrefix_def escapeHtml_single_pass bindE_def)

lemma contentText_cut:
  assumes "int (length taskInfo) > m" and "0 \<le> m"
  shows "contentText taskInfo m = take (nat m) taskInfo @ js ''...''"
  using assms by (simp add: contentText_def sliceStr_0)

lemma includesStr_replicate:
  assumes "kw \<noteq> []" and "hd kw \<noteq> c"
  shows "\<not> includesStr (replicate n c) kw"
proof
  assume "includesStr (replicate n c) kw"
  then have "set kw \<subseteq> set (replicate n c)" by (rule includesStr_set)
  moreover from assms(1) have "hd kw \<in> set kw" by simp
  ultimately have "hd kw \<in> set (replicate n c)" by blast
  with assms(2) show False by (simp add: in_set_replicate)
qed

lemma testHttp5xx_replicate: "c \<noteq> 0x68 \<Longrightarrow> \<not> testHttp5xx (replicate n c)"
  by (induction n) (auto simp: http5xxAt_def js_def)

lemma inferStatus_ampersands:
  "inferStatusFromText (JString (replicate n 0x26)) = Inr statusDone"
proof -
  have l: "toLowerCase (replicate n 0x26) = replicate n 0x26"
    by (simp add: toLowerCase_def lowerUnit_def)
  have "\<not> includesStr (replicate n 0x26) (js ''permission'')"
    by (rule includesStr_replicate) (simp_all add: js_def)
  moreover have "\<not> includesStr (replicate n 0x26) [0x6743, 0x9650]"
    by (rule includesStr_replicate) simp_all
  moreover have "\<not> includesStr (replicate n 0x26) (js ''idle'')"
    by (rule includesStr_replicate) (simp_all add: js_def)
  moreover have "\<not> includesStr (replicate n 0x26) [0x7B49, 0x5F85]"
    by (rule includesStr_replicate) simp_all
  moreover have "\<not> includesStr (replicate n 0x26) (js ''elicitation'')"
    by (rule includesStr_replicate) (simp_all add: js_def)
  moreover have "\<not> includesStr (replicate n 0x26) [0x8BF7, 0x8F93, 0x5165]"
    by (rule includesStr_replicate) simp_all
  moreover have "\<not> includesStr (replicate n 0x26) (js ''error'')"
    by (rule includesStr_replicate) (simp_all add: js_def)
  moreover have "\<not> includesStr (replicate n 0x26) [0x5931, 0x8D25]"
    by (rule includesStr_replicate) simp_all
  moreover have "\<not> includesStr (replicate n 0x26) (js ''exception'')"
    by (rule includesStr_replicate) (simp_all add: js_def)
  moreover have "\<not> includesStr (replicate n 0x26) (js ''502'')"
    by (rule includesStr_replicate) (simp_all add: js_def)
  moreover have "\<not> includesStr (replicate n 0x26) (js ''bad gateway'')"
    by (rule includesStr_replicate) (simp_all add: js_def)
  moreover have "\<not> testHttp5xx (replicate n 0x26)"
    by (rule testHttp5xx_replicate) simp
  ultimately show ?thesis
    by (simp add: inferStatusFromText_def stringOrEmpty_def l)
qed

lemma escapeChar_ampersand: "escapeChar 0x26 = js ''&amp;''"
  by (simp add: escapeChar_def)

lemma escape_dots: "concat (map escapeChar (js ''...'')) = js ''...''"
  by code_simp

lemma length_concat_replicate: "length (concat (replicate n xs)) = n * length xs"
  by (induction n) simp_all

lemma demo_fixedLength: "fixedLength statusDone [] demoTime = Inr 49"
  by code_simp

lemma demo_short_status: "inferStatusFromText (JString (js ''build ok'')) = Inr statusDone"
  by code_simp

text \<open>
  Claim C5, as amended. Let \<open>H\<close> be the fixed length of the header, at most 4086. A
  body longer than \<open>4096 - H - 10\<close> characters is cut to its first \<open>4096 - H - 10\<close>
  characters followed by the ellipsis marker, so that the header and the cut body have
  \<open>4096 - 7\<close> characters together; a body that is not longer is kept whole. The body
  is escaped after it has been cut, and the message is the header followed by the
  escaped body: the bound is on the body before escaping.
\<close>

theorem message_truncation:
  assumes "inferStatusFromText (JString taskInfo) = Inr status"
    and "fixedLength status projectName formattedTime = Inr H"
  shows "(int (length taskInfo) > maxContentLength H \<longrightarrow> 0 \<le> maxContentLength H \<longrightarrow>
            contentText taskInfo (maxContentLength H)
              = take (nat (4096 - H - 10)) taskInfo @ js ''...''
            \<and> H + int (length (contentText taskInfo (maxContentLength H))) = 4096 - 7
            \<and> suffix (js ''...'') (contentText taskInfo (maxContentLength H)))
         \<and> (int (length taskInfo) \<le> maxContentLength H \<longrightarrow>
            contentText taskInfo (maxContentLength H) = taskInfo)
         \<and> (\<exists>hp. headerPrefix status projectName formattedTime = Inr hp
              \<and> H = int (length (hp @ headerSuffix status @ fieldLabel status))
              \<and> message formattedTime taskInfo projectName
                  = Inr (hp @ headerSuffix status @ fieldLabel status @
                         concat (map escapeChar (contentText taskInfo (maxContentLength H)))))"
proof (intro conjI impI)
  assume gt: "int (length taskInfo) > maxContentLength H" and nn: "0 \<le> maxContentLength H"
  then have c: "contentText taskInfo (maxContentLength H)
      = take (nat (maxContentLength H)) taskInfo @ js ''...''"
    by (rule contentText_cut)
  then show "contentText taskInfo (maxContentLength H)
      = take (nat (4096 - H - 10)) taskInfo @ js ''...''"
    by (simp add: maxContentLength_def)
  from gt nn have "length (take (nat (maxContentLength H)) taskInfo) = nat (maxContentLength H)"
    by simp
  with c nn show "H + int (length (contentText taskInfo (maxContentLength H))) = 4096 - 7"
    by (simp add: maxContentLength_def js_def)
  from c show "suffix (js ''...'') (contentText taskInfo (maxContentLength H))"
    by (simp add: suffix_def)
next
  assume "int (length taskInfo) \<le> maxContentLength H"
  then show "contentText taskInfo (maxContentLength H) = taskInfo"
    by (simp add: contentText_def)
next
  obtain hp where hp: "headerPrefix status projectName formattedTime = Inr hp"
    using headerPrefix_Inr by blast
  with assms(2) have H: "H = int (length (hp @ headerSuffix status @ fieldLabel status))"
    by (simp add: fixedLength_def bindE_def)
  from assms hp have "message formattedTime taskInfo projectName
      = Inr (hp @ headerSuffix status @ fieldLabel status @
             concat (map escapeChar (contentText taskInfo (maxContentLength H))))"
    by (simp add: message_def bindE_def escapeHtml_single_pass)
  with hp H show "\<exists>hp. headerPrefix status projectName formattedTime = Inr hp
              \<and> H = int (length (hp @ headerSuffix status @ fieldLabel status))
              \<and> message formattedTime taskInfo projectName
                  = Inr (hp @ headerSuffix status @ fieldLabel status @
                         concat (map escapeChar (contentText taskInfo (maxContentLength H))))"
    by blast
qed

theorem message_truncation_witness:
  "inferStatusFromText (JString (replicate 5000 0x26)) = Inr statusDone
   \<and> inferStatusFromText (JString (js ''build ok'')) = Inr statusDone
   \<and> fixedLength statusDone [] demoTime = Inr 49
   \<and> int (length (replicate 5000 (0x26 :: jschar))) > maxContentLength 49
   \<and> 0 \<le> maxContentLength 49
   \<and> contentText (replicate 5000 0x26) (maxContentLength 49)
       = take (nat (4096 - 49 - 10)) (replicate 5000 0x26) @ js ''...''
   \<and> 49 + int (length (contentText (replicate 5000 0x26) (maxContentLength 49))) = 4096 - 7
   \<and> suffix (js ''...'') (contentText (replicate 5000 0x26) (maxContentLength 49))
   \<and> int (length (js ''build ok'')) \<le> maxContentLength 49
   \<and> contentText (js ''build ok'') (maxContentLength 49) = js ''build ok''"
proof -
  have g: "int (length (replicate 5000 (0x26 :: jschar))) > maxContentLength 49"
    and n: "0 \<le> maxContentLength 49"
    and k: "int (length (js ''build ok'')) \<le> maxContentLength 49"
    by (simp_all add: maxContentLength_def js_def)
  note a = message_truncation [OF inferStatus_ampersands demo_fixedLength, of 5000]
  note b = message_truncation [OF demo_short_status demo_fixedLength]
  from a g n have a': "contentText (replicate 5000 0x26) (maxContentLength 49)
       = take (nat (4096 - 49 - 10)) (replicate 5000 0x26) @ js ''...''
   \<and> 49 + int (length (contentText (replicate 5000 0x26) (maxContentLength 49))) = 4096 - 7
   \<and> suffix (js ''...'') (contentText (replicate 5000 0x26) (maxContentLength 49))"
    by blast
  from b k have b': "contentText (js ''build ok'') (maxContentLength 49) = js ''build ok''"
    by blast
  from inferStatus_ampersands [of 5000] demo_short_status demo_fixedLength g n k a' b'
  show ?thesis by blast
qed

text \<open>
  The claim as stated bounds the header and the cut body by \<open>4096 - 10\<close>, and the
  whole message by 4096 after escaping. For a body of 5000 ampersands under the header
  of 49 characters, the header and the cut body have 4089 characters, and the message
  with the escaped body has 20237.
\<close>

theorem message_overflow_counterexample:
  "inferStatusFromText (JString (replicate 5000 0x26)) = Inr statusDone
   \<and> fixedLength statusDone [] demoTime = Inr 49
   \<and> int (length (replicate 5000 (0x26 :: jschar))) > maxContentLength 49
   \<and> 49 + int (length (contentText (replicate 5000 0x26) (maxContentLength 49))) = 4089
   \<and> \<not> 49 + int (length (contentText (replicate 5000 0x26) (maxContentLength 49))) \<le> 4096 - 10
   \<and> map_sum id length (message demoTime (replicate 5000 0x26) []) = Inr 20237
   \<and> (20237 :: nat) > 4096"
proof -
  have s: "inferStatusFromText (JString (replicate 5000 0x26)) = Inr statusDone"
    by (rule inferStatus_ampersands)
  have m: "maxContentLength 49 = 4037" by (simp add: maxContentLength_def)
  have c: "contentText (replicate 5000 0x26) 4037 = replicate 4037 0x26 @ js ''...''"
    by (simp add: contentText_def sliceStr_0)
  obtain hp where hp: "headerPrefix statusDone [] demoTime = Inr hp"
    using headerPrefix_Inr by blast
  with demo_fixedLength have h: "int (length (hp @ headerSuffix statusDone @ fieldLabel statusDone)) = 49"
    by (simp add: fixedLength_def bindE_def)
  have "message demoTime (replicate 5000 0x26) []
      = Inr (hp @ headerSuffix statusDone @ fieldLabel statusDone @
             concat (replicate 4037 (js ''&amp;'')) @ js ''...'')"
    using s hp demo_fixedLength
    by (simp add: message_def bindE_def escapeHtml_single_pass m c escapeChar_ampersand escape_dots)
  moreover have "length (concat (replicate 4037 (js ''&amp;'')) @ js ''...'') = 20188"
    by (simp add: length_concat_replicate js_def)
  ultimately have l: "map_sum id length (message demoTime (replicate 5000 0x26) []) = Inr 20237"
    using h by (simp)
  from s demo_fixedLength m c l show ?thesis
    by (simp add: js_def)
qed

section \<open>Properties of notify.js\<close>

subsection \<open>Reading the event\<close>

text \<open>
  Claim C9, as amended. \<^verbatim>\<open>readStdinJson\<close> always resolves and never rejects. When
  standard input is a terminal it resolves \<^verbatim>\<open>null\<close> at once. When the accumulated
  text does not parse as JSON it resolves \<^verbatim>\<open>null\<close>; the warning is logged when the
  parse is attempted, that is when the stream closes (or the timer fires) with text
  that is not blank; blank text and an error event give \<^verbatim>\<open>null\<close> with no warning.
\<close>

theorem readStdinJson_parse_failure:
  "(isTTY inp \<longrightarrow> readStdinJson rt inp = ([], Resolved JNull))
   \<and> (JSON_parse rt (concat (stdinLines inp)) = None \<longrightarrow>
        snd (readStdinJson rt inp) = Resolved JNull
        \<and> (\<not> isTTY inp \<and> stdinEnd inp \<noteq> StdinError \<and> trim (concat (stdinLines inp)) \<noteq> [] \<longrightarrow>
             fst (readStdinJson rt inp) = [Log LogStdinParseFailed])
        \<and> (isTTY inp \<or> stdinEnd inp = StdinError \<or> trim (concat (stdinLines inp)) = [] \<longrightarrow>
             fst (readStdinJson rt inp) = []))
   \<and> (\<exists>v. snd (readStdinJson rt inp) = Resolved v)"
  by (cases "stdinEnd inp")
     (auto simp: readStdinJson_def onClose_def Let_def split: option.splits)

theorem readStdinJson_parse_failure_witness:
  \<open>JSON_parse demoRuntime (concat (stdinLines (demoStdin [js ''{"hook_event_name":'']))) = None
   \<and> \<not> isTTY (demoStdin [js ''{"hook_event_name":''])
   \<and> stdinEnd (demoStdin [js ''{"hook_event_name":'']) \<noteq> StdinError
   \<and> trim (concat (stdinLines (demoStdin [js ''{"hook_event_name":'']))) \<noteq> []
   \<and> readStdinJson demoRuntime (demoStdin [js ''{"hook_event_name":''])
       = ([Log LogStdinParseFailed], Resolved JNull)
   \<and> isTTY ((demoStdin [])\<lparr>isTTY := True\<rparr>)
   \<and> readStdinJson demoRuntime ((demoStdin [])\<lparr>isTTY := True\<rparr>) = ([], Resolved JNull)\<close>
proof -
  let ?i = \<open>demoStdin [js ''{"hook_event_name":'']\<close>
  have p: "JSON_parse demoRuntime (concat (stdinLines ?i)) = None"
    by code_simp
  have t: "\<not> isTTY ?i" and e: "stdinEnd ?i \<noteq> StdinError"
    by (simp_all add: demoStdin_def)
  have b: "trim (concat (stdinLines ?i)) \<noteq> []"
    by (simp add: demoStdin_def trim_def js_def isWhiteSpace_def)
  have y: "isTTY ((demoStdin [])\<lparr>isTTY := True\<rparr>)" by simp
  note a = readStdinJson_parse_failure [of ?i demoRuntime]
  note c = readStdinJson_parse_failure [of "(demoStdin [])\<lparr>isTTY := True\<rparr>" demoRuntime]
  from a p t e b have "snd (readStdinJson demoRuntime ?i) = Resolved JNull
      \<and> fst (readStdinJson demoRuntime ?i) = [Log LogStdinParseFailed]"
    by blast
  then have a': "readStdinJson demoRuntime ?i = ([Log LogStdinParseFailed], Resolved JNull)"
    by (simp add: prod_eq_iff)
  from c y have c': "readStdinJson demoRuntime ((demoStdin [])\<lparr>isTTY := True\<rparr>) = ([], Resolved JNull)"
    by blast
  from p t e b y a' c' show ?thesis by blast
qed

text \<open>
  The claim as stated has a warning logged for every input that does not parse. Empty
  input does not parse as JSON, and is answered by \<^verbatim>\<open>null\<close> with nothing logged.
\<close>

theorem readStdinJson_blank_counterexample:
  "JSON_parse demoRuntime (concat (stdinLines (demoStdin []))) = None
   \<and> readStdinJson demoRuntime (demoStdin []) = ([], Resolved JNull)
   \<and> Log LogStdinParseFailed \<notin> set (fst (readStdinJson demoRuntime (demoStdin [])))"
  by (simp add: demoRuntime_def demoParse_def demoLine_def demoUserLine_def demoStdin_def js_def readStdinJson_def
      onClose_def trim_def)

subsection \<open>The summary of a transcript\<close>

text \<open>
  The loop body agrees with the text of a record as the specification words it, and the
  backward loop returns the summary of the last line that qualifies.
\<close>

lemma getProp_nonnull: "c \<noteq> JNull \<Longrightarrow> c \<noteq> JUndefined \<Longrightarrow> \<exists>v. getProp c k = Inr v"
  by (cases c) (auto split: option.splits)

lemma filterText_eq:
  "filterText cs =
     (if list_all (\<lambda>c. c \<noteq> JNull \<and> c \<noteq> JUndefined) cs
      then Inr (filter (\<lambda>c. getProp c (js ''type'') = Inr (JString (js ''text''))) cs)
      else Inl TypeError)"
proof (induction cs)
  case Nil
  show ?case by simp
next
  case (Cons c cs)
  show ?case
  proof (cases "c = JNull \<or> c = JUndefined")
    case True
    then show ?thesis by (auto simp: bindE_def)
  next
    case False
    then obtain v where v: "getProp c (js ''type'') = Inr v"
      using getProp_nonnull [of c] by blast
    with False Cons show ?thesis by (auto simp: bindE_def)
  qed
qed

lemma mapText_eq:
  "list_all (\<lambda>c. c \<noteq> JNull \<and> c \<noteq> JUndefined) cs \<Longrightarrow>
   mapText cs = Inr (map (\<lambda>c. case getProp c (js ''text'') of Inr t \<Rightarrow> t | Inl e \<Rightarrow> JUndefined) cs)"
proof (induction cs)
  case Nil
  show ?case by simp
next
  case (Cons c cs)
  then obtain v where v: "getProp c (js ''text'') = Inr v"
    using getProp_nonnull [of c] by auto
  with Cons show ?case by (simp add: bindE_def)
qed

lemma list_all_filter: "list_all P cs \<Longrightarrow> list_all P (filter Q cs)"
  by (induction cs) auto

lemma mapText_filterText:
  "filterText cs = Inr segs \<Longrightarrow> mapText segs = Inr (textSegments cs)"
  by (auto simp: filterText_eq textSegments_def list_all_filter mapText_eq split: if_splits)

lemma textContent_array:
  "(case bindE (filterText cs) (\<lambda>segs. bindE (mapText segs) (\<lambda>texts.
            bindE (joinWith [0x0A] texts) (\<lambda>t. Inr (Some t)))) of
      Inr (Some t) \<Rightarrow> if t \<noteq> [] then Some t else None | _ \<Rightarrow> None)
   = (if list_all (\<lambda>c. c \<noteq> JNull \<and> c \<noteq> JUndefined) cs then
        (case joinWith [0x0A] (textSegments cs) of
           Inr t \<Rightarrow> if t \<noteq> [] then Some t else None
         | Inl e \<Rightarrow> None)
      else None)"
proof (cases "filterText cs")
  case (Inl e)
  then show ?thesis by (auto simp: bindE_def filterText_eq split: if_splits)
next
  case (Inr segs)
  then have m: "mapText segs = Inr (textSegments cs)" by (rule mapText_filterText)
  from Inr have "list_all (\<lambda>c. c \<noteq> JNull \<and> c \<noteq> JUndefined) cs"
    by (auto simp: filterText_eq split: if_splits)
  with Inr m show ?thesis by (simp add: bindE_def split: sum.splits)
qed

lemma textContent_spec:
  "(case textContent entry of
      Inr (Some t) \<Rightarrow> if t \<noteq> [] then Some t else None | _ \<Rightarrow> None)
   = modelAuthoredText entry"
proof (cases "getProp entry (js ''type'') = Inr (JString (js ''assistant''))")
  case False
  then show ?thesis
    by (cases "getProp entry (js ''type'')") (simp_all add: textContent_def modelAuthoredText_def bindE_def)
next
  case ty: True
  show ?thesis
  proof (cases "getProp entry (js ''message'')")
    case (Inl e)
    with ty show ?thesis by (simp add: textContent_def modelAuthoredText_def bindE_def)
  next
    case (Inr m)
    show ?thesis
    proof (cases "m = JNull \<or> m = JUndefined")
      case True
      with ty Inr show ?thesis
        by (auto simp: textContent_def modelAuthoredText_def bindE_def)
    next
      case False
      then obtain content where c: "getProp m (js ''content'') = Inr content"
        using getProp_nonnull [of m] by blast
      show ?thesis
      proof (cases content)
        case (JArray cs)
        with ty Inr False c show ?thesis
          using textContent_array [of cs]
          by (simp add: textContent_def modelAuthoredText_def bindE_def)
      qed (use ty Inr False c in \<open>simp_all add: textContent_def modelAuthoredText_def bindE_def\<close>)
    qed
  qed
qed

lemma lineBody_spec:
  "(case lineBody rt l of Inr (Some s) \<Rightarrow> Some s | _ \<Rightarrow> None) = summaryOfLine rt l"
proof (cases "JSON_parse rt l")
  case None
  then show ?thesis by (simp add: lineBody_def summaryOfLine_def)
next
  case (Some entry)
  show ?thesis
  proof (cases "textContent entry")
    case (Inl e)
    with Some textContent_spec [of entry] show ?thesis
      by (simp add: lineBody_def summaryOfLine_def bindE_def)
  next
    case (Inr tc)
    show ?thesis
    proof (cases tc)
      case None
      with Inr textContent_spec [of entry] have "modelAuthoredText entry = None" by simp
      with Some Inr None show ?thesis
        by (simp add: lineBody_def summaryOfLine_def bindE_def)
    next
      case t: (Some t)
      with Inr textContent_spec [of entry]
      have "modelAuthoredText entry = (if t \<noteq> [] then Some t else None)" by simp
      with Some Inr t show ?thesis
        by (simp add: lineBody_def summaryOfLine_def bindE_def)
    qed
  qed
qed

lemma qualifies_summary: "qualifies rt l \<longleftrightarrow> summaryOfLine rt l \<noteq> None"
  by (simp add: qualifies_def summaryOfLine_def split: option.splits)

lemma scanBack_step:
  "scanBack rt lines (Suc i) =
     (case summaryOfLine rt (lines ! i) of Some s \<Rightarrow> Some s | None \<Rightarrow> scanBack rt lines i)"
  using lineBody_spec [of rt "lines ! i"]
  by (auto split: sum.splits option.splits)

lemma scanBack_take:
  "n \<le> length lines \<Longrightarrow> scanBack rt lines n = lastQualifying rt (take n lines)"
proof (induction n)
  case 0
  show ?case by (simp add: lastQualifying_def)
next
  case (Suc i)
  then have t: "take (Suc i) lines = take i lines @ [lines ! i]"
    by (simp add: take_Suc_conv_app_nth)
  from Suc have ih: "scanBack rt lines i = lastQualifying rt (take i lines)" by simp
  show ?case
    unfolding scanBack_step t ih
    by (auto simp: lastQualifying_def qualifies_summary split: option.splits)
qed

lemma scanBack_all: "scanBack rt lines (length lines) = lastQualifying rt lines"
  by (simp add: scanBack_take)

lemma lastQualifying_None: "lastQualifying rt lines = None \<longleftrightarrow> \<not> list_ex (qualifies rt) lines"
proof (cases "find (qualifies rt) (rev lines)")
  case None
  then have "\<not> list_ex (qualifies rt) lines"
    by (simp add: find_None_iff list_ex_iff)
  moreover from None have "lastQualifying rt lines = None"
    by (simp add: lastQualifying_def)
  ultimately show ?thesis by simp
next
  case (Some l)
  then obtain i where i: "i < length (rev lines)" "qualifies rt (rev lines ! i)"
    "l = rev lines ! i"
    unfolding find_Some_iff by blast
  from i(1) have "rev lines ! i \<in> set (rev lines)" by (rule nth_mem)
  with i have "qualifies rt l" and "l \<in> set lines" by simp_all
  with Some show ?thesis
    by (auto simp: lastQualifying_def list_ex_iff qualifies_summary)
qed

lemma find_rev_last:
  "P l \<Longrightarrow> \<not> list_ex P post \<Longrightarrow> find P (rev (pre @ [l] @ post)) = Some l"
  by (induction post rule: rev_induct) (auto simp: list_ex_iff)

lemma lastQualifying_last:
  "qualifies rt l \<Longrightarrow> \<not> list_ex (qualifies rt) post \<Longrightarrow>
   lastQualifying rt (pre @ [l] @ post) = summaryOfLine rt l"
  using find_rev_last [of "qualifies rt" l post pre]
  by (simp add: lastQualifying_def)

lemma replaceAll_id: "c \<notin> set s \<Longrightarrow> replaceAll c r s = s"
  by (induction s) (auto simp: replaceAll_def)

lemma dropWhile_hd: "s \<noteq> [] \<Longrightarrow> \<not> P (hd s) \<Longrightarrow> dropWhile P s = s"
  by (cases s) simp_all

lemma trim_id:
  assumes "s \<noteq> []" and "\<not> isWhiteSpace (hd s)" and "\<not> isWhiteSpace (last s)"
  shows "trim s = s"
proof -
  have "dropWhile isWhiteSpace s = s" using assms(1,2) by (rule dropWhile_hd)
  moreover have "dropWhile isWhiteSpace (rev s) = rev s"
    using assms(1,3) by (intro dropWhile_hd) (simp_all add: hd_rev)
  ultimately show ?thesis by (simp add: trim_def)
qed

lemma modelAuthoredText_nonempty: "modelAuthoredText entry = Some t \<Longrightarrow> t \<noteq> []"
  by (auto simp: modelAuthoredText_def split: if_splits sum.splits jsvalue.splits)

lemma summaryOf_take:
  "summaryOf t = trim (replaceAll 0x0A (js '' '') (take 100 t)) @
                 (if length t > 100 then js ''...'' else [])"
  by (simp add: summaryOf_def sliceStr_0)

lemma extractTaskSummary_file:
  "fs p = Some (File content) \<Longrightarrow> p \<noteq> [] \<Longrightarrow>
   extractTaskSummary rt fs (JString p) = ([], lastQualifying rt (splitNl (trim content)))"
  by (simp add: extractTaskSummary_def Let_def scanBack_all)

lemma demo_transcript_lines:
  "splitNl (trim demoTranscript)
     = [demoLine (js ''first answer'')] @ [demoLine (js ''second answer'')] @
       [demoUserLine, demoCutLine]"
  by code_simp

lemma demo_short_lines:
  "splitNl (trim demoShortTranscript)
     = [demoLine (js ''first answer'')] @ [demoLine (js '' ok'')] @ []"
  by code_simp

lemma demo_second_qualifies: "qualifies demoRuntime (demoLine (js ''second answer''))"
  by code_simp

lemma demo_tail_unqualified: "\<not> list_ex (qualifies demoRuntime) [demoUserLine, demoCutLine]"
  by code_simp

lemma demo_second_summary:
  "summaryOfLine demoRuntime (demoLine (js ''second answer'')) = Some (js ''second answer'')"
  by code_simp

lemma demo_cut_unparseable: "JSON_parse demoRuntime demoCutLine = None"
  by code_simp

lemma demo_empty_unparseable: "JSON_parse demoRuntime [] = None"
  by code_simp

lemma demo_fs_transcript: "demoFs (js ''/tmp/transcript.jsonl'') = Some (File demoTranscript)"
  by (simp add: demoFs_def)

lemma demo_fs_short: "demoFs (js ''/tmp/short.jsonl'') = Some (File demoShortTranscript)"
  by (simp add: demoFs_def js_def)

lemma demo_fs_empty: "demoFs (js ''/tmp/empty.jsonl'') = Some (File [])"
  by (simp add: demoFs_def js_def)

lemma demo_fs_missing: "demoFs (js ''/tmp/missing.jsonl'') = None"
  by (simp add: demoFs_def js_def)

lemma demo_second_parse:
  "JSON_parse demoRuntime (demoLine (js ''second answer'')) = Some (demoEntry (js ''second answer''))"
  by code_simp

lemma demo_second_text: "modelAuthoredText (demoEntry (js ''second answer'')) = Some (js ''second answer'')"
  by code_simp

text \<open>
  Claim C3. \<^verbatim>\<open>extractTaskSummary\<close> returns \<^verbatim>\<open>null\<close> when the path is missing
  (\<^verbatim>\<open>undefined\<close>, \<^verbatim>\<open>null\<close> or empty), when no file exists at the path, and when
  the file is empty. For an existing file it returns the summary of the last line that
  qualifies: \<^verbatim>\<open>null\<close> exactly when no line qualifies, and otherwise the summary of
  the qualifying line after which no line qualifies, whatever stands before and after
  it. A line that does not parse never qualifies and does not end the scan.
\<close>

theorem extractTaskSummary_last_match:
  "(\<not> truthy path \<longrightarrow> extractTaskSummary rt fs path = ([], None))
   \<and> (fs p = None \<longrightarrow> extractTaskSummary rt fs (JString p) = ([], None))
   \<and> (fs p = Some (File content) \<longrightarrow> trim content = [] \<longrightarrow> JSON_parse rt [] = None \<longrightarrow>
        extractTaskSummary rt fs (JString p) = ([], None))
   \<and> (fs p = Some (File content) \<longrightarrow> p \<noteq> [] \<longrightarrow>
        extractTaskSummary rt fs (JString p)
          = ([], lastQualifying rt (splitNl (trim content))))
   \<and> (lastQualifying rt lines = None \<longleftrightarrow> \<not> list_ex (qualifies rt) lines)
   \<and> (qualifies rt l \<longrightarrow> \<not> list_ex (qualifies rt) post \<longrightarrow>
        lastQualifying rt (pre @ [l] @ post) = summaryOfLine rt l
        \<and> summaryOfLine rt l \<noteq> None)
   \<and> (JSON_parse rt l = None \<longrightarrow> \<not> qualifies rt l)"
proof (intro conjI impI)
  assume "\<not> truthy path"
  then show "extractTaskSummary rt fs path = ([], None)"
    by (simp add: extractTaskSummary_def)
next
  assume "fs p = None"
  then show "extractTaskSummary rt fs (JString p) = ([], None)"
    by (simp add: extractTaskSummary_def)
next
  assume "fs p = Some (File content)" and "trim content = []" and "JSON_parse rt [] = None"
  then show "extractTaskSummary rt fs (JString p) = ([], None)"
    by (simp add: extractTaskSummary_def lineBody_def)
next
  assume "fs p = Some (File content)" and "p \<noteq> []"
  then show "extractTaskSummary rt fs (JString p)
          = ([], lastQualifying rt (splitNl (trim content)))"
    by (rule extractTaskSummary_file)
next
  show "lastQualifying rt lines = None \<longleftrightarrow> \<not> list_ex (qualifies rt) lines"
    by (rule lastQualifying_None)
next
  assume "qualifies rt l" and "\<not> list_ex (qualifies rt) post"
  then show "lastQualifying rt (pre @ [l] @ post) = summaryOfLine rt l"
    by (rule lastQualifying_last)
next
  assume "qualifies rt l"
  then show "summaryOfLine rt l \<noteq> None" by (simp add: qualifies_summary)
next
  assume "JSON_parse rt l = None"
  then show "\<not> qualifies rt l" by (simp add: qualifies_def)
qed

theorem extractTaskSummary_last_match_witness:
  "\<not> truthy JUndefined
   \<and> extractTaskSummary demoRuntime demoFs JUndefined = ([], None)
   \<and> demoFs (js ''/tmp/missing.jsonl'') = None
   \<and> extractTaskSummary demoRuntime demoFs (JString (js ''/tmp/missing.jsonl'')) = ([], None)
   \<and> demoFs (js ''/tmp/empty.jsonl'') = Some (File [])
   \<and> trim [] = [] \<and> JSON_parse demoRuntime [] = None
   \<and> extractTaskSummary demoRuntime demoFs (JString (js ''/tmp/empty.jsonl'')) = ([], None)
   \<and> demoFs (js ''/tmp/transcript.jsonl'') = Some (File demoTranscript)
   \<and> js ''/tmp/transcript.jsonl'' \<noteq> []
   \<and> splitNl (trim demoTranscript)
       = [demoLine (js ''first answer'')] @ [demoLine (js ''second answer'')] @
         [demoUserLine, demoCutLine]
   \<and> qualifies demoRuntime (demoLine (js ''second answer''))
   \<and> \<not> list_ex (qualifies demoRuntime) [demoUserLine, demoCutLine]
   \<and> JSON_parse demoRuntime demoCutLine = None
   \<and> \<not> qualifies demoRuntime demoCutLine
   \<and> extractTaskSummary demoRuntime demoFs (JString (js ''/tmp/transcript.jsonl''))
       = ([], Some (js ''second answer''))"
proof -
  have u: "\<not> truthy JUndefined" by simp
  have t: "trim [] = []" by (simp add: trim_def)
  have n: "js ''/tmp/transcript.jsonl'' \<noteq> []" by (simp add: js_def)
  note a = extractTaskSummary_last_match [where rt = demoRuntime and fs = demoFs
      and path = JUndefined and p = "js ''/tmp/missing.jsonl''"]
  note b = extractTaskSummary_last_match [where rt = demoRuntime and fs = demoFs
      and p = "js ''/tmp/empty.jsonl''" and content = "[]"]
  note c = extractTaskSummary_last_match [where rt = demoRuntime and fs = demoFs
      and p = "js ''/tmp/transcript.jsonl''" and content = demoTranscript
      and l = "demoLine (js ''second answer'')" and post = "[demoUserLine, demoCutLine]"
      and pre = "[demoLine (js ''first answer'')]"]
  note d = extractTaskSummary_last_match [where rt = demoRuntime and l = demoCutLine]
  from a u demo_fs_missing
  have a': "extractTaskSummary demoRuntime demoFs JUndefined = ([], None)"
    "extractTaskSummary demoRuntime demoFs (JString (js ''/tmp/missing.jsonl'')) = ([], None)"
    by blast+
  from b demo_fs_empty t demo_empty_unparseable
  have b': "extractTaskSummary demoRuntime demoFs (JString (js ''/tmp/empty.jsonl'')) = ([], None)"
    by blast
  from c demo_fs_transcript n
  have c1: "extractTaskSummary demoRuntime demoFs (JString (js ''/tmp/transcript.jsonl''))
      = ([], lastQualifying demoRuntime (splitNl (trim demoTranscript)))"
    by blast
  from c demo_second_qualifies demo_tail_unqualified
  have c2: "lastQualifying demoRuntime ([demoLine (js ''first answer'')] @
      [demoLine (js ''second answer'')] @ [demoUserLine, demoCutLine])
      = summaryOfLine demoRuntime (demoLine (js ''second answer''))"
    by blast
  from c1 c2 have c': "extractTaskSummary demoRuntime demoFs (JString (js ''/tmp/transcript.jsonl''))
       = ([], Some (js ''second answer''))"
    by (simp only: demo_transcript_lines demo_second_summary)
  from d demo_cut_unparseable have d': "\<not> qualifies demoRuntime demoCutLine" by blast
  from u t n demo_fs_missing demo_fs_empty demo_empty_unparseable demo_fs_transcript
    demo_transcript_lines demo_second_qualifies demo_tail_unqualified demo_cut_unparseable
    a' b' c' d'
  show ?thesis by blast
qed

text \<open>
  Claim C2, as amended. When the last qualifying record of the transcript has the text
  \<open>t\<close>, the summary is the first 100 characters of \<open>t\<close> with each line break
  replaced by a space and the white space at both ends removed, followed by the
  ellipsis marker exactly when \<open>t\<close> is longer than 100 characters. When the first 100
  characters hold no line break and neither begin nor end with white space, this is
  the first 100 characters and the marker for a longer text, and the text itself
  otherwise.
\<close>

theorem extractTaskSummary_summary_shape:
  assumes "fs p = Some (File content)" and "p \<noteq> []"
    and "splitNl (trim content) = pre @ [l] @ post"
    and "JSON_parse rt l = Some entry" and "modelAuthoredText entry = Some t"
    and "\<not> list_ex (qualifies rt) post"
  shows "snd (extractTaskSummary rt fs (JString p))
           = Some (trim (replaceAll 0x0A (js '' '') (take 100 t)) @
                   (if length t > 100 then js ''...'' else []))
         \<and> (0x0A \<notin> set (take 100 t) \<and> \<not> isWhiteSpace (hd t)
              \<and> \<not> isWhiteSpace (last (take 100 t)) \<longrightarrow>
              snd (extractTaskSummary rt fs (JString p))
                = Some (if length t > 100 then take 100 t @ js ''...'' else t))"
proof -
  from assms(4,5) have q: "qualifies rt l" and s: "summaryOfLine rt l = Some (summaryOf t)"
    by (simp_all add: qualifies_def summaryOfLine_def)
  from q assms(6) have "lastQualifying rt (pre @ [l] @ post) = summaryOfLine rt l"
    by (rule lastQualifying_last)
  with s assms(1,2,3) have r: "snd (extractTaskSummary rt fs (JString p)) = Some (summaryOf t)"
    by (simp add: extractTaskSummary_file)
  have ne: "t \<noteq> []" using assms(5) by (rule modelAuthoredText_nonempty)
  show ?thesis
  proof (intro conjI impI)
    show "snd (extractTaskSummary rt fs (JString p))
           = Some (trim (replaceAll 0x0A (js '' '') (take 100 t)) @
                   (if length t > 100 then js ''...'' else []))"
      using r by (simp only: summaryOf_take)
  next
    assume h: "0x0A \<notin> set (take 100 t) \<and> \<not> isWhiteSpace (hd t)
              \<and> \<not> isWhiteSpace (last (take 100 t))"
    from ne have t1: "take 100 t \<noteq> []" and "hd (take 100 t) = hd t" by (cases t; simp)+
    with h have "trim (take 100 t) = take 100 t" by (intro trim_id) simp_all
    moreover from h have "replaceAll 0x0A (js '' '') (take 100 t) = take 100 t"
      by (intro replaceAll_id) simp
    ultimately have "summaryOf t = take 100 t @ (if length t > 100 then js ''...'' else [])"
      by (simp only: summaryOf_take)
    with r show "snd (extractTaskSummary rt fs (JString p))
                = Some (if length t > 100 then take 100 t @ js ''...'' else t)"
      by simp
  qed
qed

theorem extractTaskSummary_summary_shape_witness:
  "demoFs (js ''/tmp/transcript.jsonl'') = Some (File demoTranscript)
   \<and> js ''/tmp/transcript.jsonl'' \<noteq> []
   \<and> splitNl (trim demoTranscript)
       = [demoLine (js ''first answer'')] @ [demoLine (js ''second answer'')] @
         [demoUserLine, demoCutLine]
   \<and> JSON_parse demoRuntime (demoLine (js ''second answer''))
       = Some (demoEntry (js ''second answer''))
   \<and> modelAuthoredText (demoEntry (js ''second answer'')) = Some (js ''second answer'')
   \<and> \<not> list_ex (qualifies demoRuntime) [demoUserLine, demoCutLine]
   \<and> 0x0A \<notin> set (take 100 (js ''second answer''))
   \<and> \<not> isWhiteSpace (hd (js ''second answer''))
   \<and> \<not> isWhiteSpace (last (take 100 (js ''second answer'')))
   \<and> snd (extractTaskSummary demoRuntime demoFs (JString (js ''/tmp/transcript.jsonl'')))
       = Some (js ''second answer'')"
proof -
  have n: "js ''/tmp/transcript.jsonl'' \<noteq> []" by (simp add: js_def)
  have h: "0x0A \<notin> set (take 100 (js ''second answer''))
     \<and> \<not> isWhiteSpace (hd (js ''second answer''))
     \<and> \<not> isWhiteSpace (last (take 100 (js ''second answer'')))"
    by (simp add: js_def isWhiteSpace_def)
  have len: "\<not> length (js ''second answer'') > 100" by (simp add: js_def)
  note a = extractTaskSummary_summary_shape [where fs = demoFs
      and p = "js ''/tmp/transcript.jsonl''" and rt = demoRuntime,
      OF demo_fs_transcript n demo_transcript_lines
      demo_second_parse demo_second_text demo_tail_unqualified]
  from a h have "snd (extractTaskSummary demoRuntime demoFs (JString (js ''/tmp/transcript.jsonl'')))
      = Some (if length (js ''second answer'') > 100 then take 100 (js ''second answer'') @ js ''...''
              else js ''second answer'')"
    by blast
  with len have r: "snd (extractTaskSummary demoRuntime demoFs (JString (js ''/tmp/transcript.jsonl'')))
       = Some (js ''second answer'')"
    by simp
  from n h r demo_fs_transcript demo_transcript_lines demo_second_parse demo_second_text
    demo_tail_unqualified
  show ?thesis by blast
qed

text \<open>
  The claim as stated has a text of at most 100 characters returned unmodified. The
  last record of the short transcript has the text \<^verbatim>\<open>" ok"\<close>, and the summary is
  \<^verbatim>\<open>"ok"\<close>.
\<close>

theorem extractTaskSummary_trims_counterexample:
  "demoFs (js ''/tmp/short.jsonl'') = Some (File demoShortTranscript)
   \<and> last (splitNl (trim demoShortTranscript)) = demoLine (js '' ok'')
   \<and> JSON_parse demoRuntime (demoLine (js '' ok'')) = Some (demoEntry (js '' ok''))
   \<and> modelAuthoredText (demoEntry (js '' ok'')) = Some (js '' ok'')
   \<and> length (js '' ok'') \<le> 100
   \<and> snd (extractTaskSummary demoRuntime demoFs (JString (js ''/tmp/short.jsonl'')))
       = Some (js ''ok'')
   \<and> js ''ok'' \<noteq> js '' ok''"
  by code_simp

end
